theory Spec2Isabelle
  imports Complex_Main
begin

section \<open>Values decoded by \<^verbatim>\<open>json.loads\<close>\<close>

text \<open>
  \<^verbatim>\<open>extract_droid.py\<close> reads every \<^verbatim>\<open>*.jsonl\<close> file of the sessions directory line by
  line, decodes each line with \<^verbatim>\<open>json.loads\<close> and folds the decoded records into one
  conversation per file. The values the decoder returns are Python's \<^verbatim>\<open>None\<close>, booleans,
  integers, floats, strings, lists and dictionaries. A float is a finite number, an
  infinity or a NaN (the decoder accepts \<^verbatim>\<open>Infinity\<close> and \<^verbatim>\<open>NaN\<close>); the code only ever asks
  whether it is zero.
\<close>

datatype pyfloat = Finite rat | PosInf | NegInf | NaN

datatype json =
    JNull
  | JBool bool
  | JInt int
  | JFloat pyfloat
  | JStr string
  | JArr "json list"
  | JObj "(string \<times> json) list"

text \<open>
  A Python \<^verbatim>\<open>dict\<close> with string keys, in insertion order. Lookup takes the first binding
  of a key, so a list with a repeated key stands for the dictionary of its first
  bindings.
\<close>

type_synonym dict = "(string \<times> json) list"

text \<open>\<^verbatim>\<open>d.get(k)\<close>: the value, or \<^verbatim>\<open>None\<close> when the key is absent.\<close>

definition dict_get :: "dict \<Rightarrow> string \<Rightarrow> json" where
  "dict_get d k = (case map_of d k of None \<Rightarrow> JNull | Some v \<Rightarrow> v)"

text \<open>\<^verbatim>\<open>d.get(k, default)\<close>.\<close>

definition dict_get_default :: "dict \<Rightarrow> string \<Rightarrow> json \<Rightarrow> json" where
  "dict_get_default d k dflt = (case map_of d k of None \<Rightarrow> dflt | Some v \<Rightarrow> v)"

text \<open>\<^verbatim>\<open>k in d\<close>.\<close>

definition dict_has :: "dict \<Rightarrow> string \<Rightarrow> bool" where
  "dict_has d k = (map_of d k \<noteq> None)"

text \<open>
  \<^verbatim>\<open>d[k] = v\<close>: an existing key keeps its place, a new key goes to the end.
\<close>

fun dict_set :: "string \<Rightarrow> json \<Rightarrow> dict \<Rightarrow> dict" where
  "dict_set k v [] = [(k, v)]"
| "dict_set k v (p # ps) = (if fst p = k then (k, v) # ps else p # dict_set k v ps)"

text \<open>Python's truth value of a decoded value, as \<^verbatim>\<open>if x:\<close> tests it.\<close>

fun truthy :: "json \<Rightarrow> bool" where
  "truthy JNull = False"
| "truthy (JBool b) = b"
| "truthy (JInt i) = (i \<noteq> 0)"
| "truthy (JFloat f) = (f \<noteq> Finite 0)"
| "truthy (JStr s) = (s \<noteq> [])"
| "truthy (JArr xs) = (xs \<noteq> [])"
| "truthy (JObj kvs) = (kvs \<noteq> [])"

text \<open>
  The exceptions the extraction can raise. Only \<^verbatim>\<open>json.JSONDecodeError\<close> is caught per
  line; it is not listed here because a line that raises it is skipped (see \<open>Malformed\<close>
  below). \<^verbatim>\<open>ValueError\<close> stands for a \<^verbatim>\<open>ValueError\<close> that is not a \<^verbatim>\<open>JSONDecodeError\<close>.
\<close>

datatype error =
    AttributeError
  | TypeError
  | KeyError
  | OSError
  | UnicodeDecodeError
  | UnicodeEncodeError
  | RecursionError
  | ValueError

text \<open>\<^verbatim>\<open>sep.join(items)\<close> on strings.\<close>

fun join :: "string \<Rightarrow> string list \<Rightarrow> string" where
  "join sep [] = []"
| "join sep [x] = x"
| "join sep (x # y # ys) = x @ sep @ join sep (y # ys)"

text \<open>
  \<^verbatim>\<open>sep.join(items)\<close> on decoded values: Python raises \<^verbatim>\<open>TypeError\<close> when an item is not
  a string.
\<close>

fun strings_of :: "json list \<Rightarrow> string list option" where
  "strings_of [] = Some []"
| "strings_of (JStr s # vs) = (case strings_of vs of None \<Rightarrow> None | Some ss \<Rightarrow> Some (s # ss))"
| "strings_of (_ # vs) = None"

definition str_join :: "string \<Rightarrow> json list \<Rightarrow> error + string" where
  "str_join sep items =
     (case strings_of items of None \<Rightarrow> Inl TypeError | Some ss \<Rightarrow> Inr (join sep ss))"

section \<open>Session files and conversations\<close>

text \<open>
  One item of the iteration \<^verbatim>\<open>for line in f\<close>, as the library calls of the loop body see
  it: \<open>Blank\<close> when \<^verbatim>\<open>line.strip()\<close> is empty, \<open>Malformed\<close> when \<^verbatim>\<open>json.loads(line)\<close> raises
  \<^verbatim>\<open>JSONDecodeError\<close>, \<open>Decoded v\<close> when it returns \<open>v\<close>, \<open>LoadsRaises e\<close> when the line is not
  blank and \<^verbatim>\<open>json.loads(line)\<close> raises an exception \<open>e\<close> that is not a \<^verbatim>\<open>JSONDecodeError\<close>
  (\<^verbatim>\<open>RecursionError\<close> on brackets nested too deep, \<^verbatim>\<open>ValueError\<close> on an integer literal
  longer than the interpreter's digit limit), and \<open>ReadRaises e\<close> when the iteration itself
  raises \<open>e\<close> instead of giving a line (\<^verbatim>\<open>OSError\<close>, \<^verbatim>\<open>UnicodeDecodeError\<close>).
\<close>

datatype line =
    Blank
  | Malformed
  | Decoded json
  | LoadsRaises error
  | ReadRaises error

text \<open>
  A file of the directory: \<open>stem\<close> is \<^verbatim>\<open>jsonl_file.stem\<close>, \<open>path\<close> is \<^verbatim>\<open>str(jsonl_file)\<close>, and
  \<open>contents\<close> is what \<^verbatim>\<open>open\<close> gives: the exception it raises, or the lines. \<open>print_raises\<close>
  is what the \<^verbatim>\<open>print\<close> of line 140 does when it reports a failure of this file: \<open>None\<close>
  when it returns, \<open>Some e\<close> when it raises \<open>e\<close> (\<^verbatim>\<open>UnicodeEncodeError\<close> when the standard
  output cannot encode the path, \<^verbatim>\<open>OSError\<close> when the standard output is closed).
\<close>

record session_file =
  stem :: string
  path :: string
  contents :: "error + line list"
  print_raises :: "error option"

text \<open>
  The dictionary appended to \<^verbatim>\<open>conversations\<close> (lines 130 to 137). Its keys are fixed, so
  it is a record; the messages are dictionaries, since their keys vary. During the scan
  of a file the record also holds the loop's variables \<^verbatim>\<open>messages\<close>, \<^verbatim>\<open>session_title\<close> and
  \<^verbatim>\<open>session_owner\<close>.
\<close>

record conversation =
  messages :: "dict list"
  source :: string
  session_id :: string
  session_title :: json
  session_owner :: json
  source_file :: string

subsection \<open>Content blocks (lines 65 to 105)\<close>

text \<open>Lines 65 to 67, applied to \<^verbatim>\<open>message.get('content', [])\<close>.\<close>

fun content_parts_of :: "json \<Rightarrow> json list" where
  "content_parts_of (JArr xs) = xs"
| "content_parts_of v = (if truthy v then [v] else [])"

text \<open>
  The body of the loop over \<^verbatim>\<open>content_parts\<close> (lines 83 to 105), on the four variables
  \<^verbatim>\<open>text_content\<close>, \<^verbatim>\<open>tool_uses\<close>, \<^verbatim>\<open>tool_results\<close>, \<^verbatim>\<open>thinking\<close>.
\<close>

type_synonym blocks = "json list \<times> json list \<times> json list \<times> json"

fun process_content_item :: "json \<Rightarrow> blocks \<Rightarrow> blocks" where
  "process_content_item (JObj content_item) (text_content, tool_uses, tool_results, thinking) =
     (let content_type = dict_get content_item ''type'' in
      if content_type = JStr ''text'' then
        (text_content @ [dict_get_default content_item ''text'' (JStr '''')],
         tool_uses, tool_results, thinking)
      else if content_type = JStr ''thinking'' then
        (text_content, tool_uses, tool_results, dict_get content_item ''thinking'')
      else if content_type = JStr ''tool_use'' then
        (text_content,
         tool_uses @ [JObj [(''id'', dict_get content_item ''id''),
                            (''name'', dict_get content_item ''name''),
                            (''input'', dict_get content_item ''input'')]],
         tool_results, thinking)
      else if content_type = JStr ''tool_result'' then
        (text_content, tool_uses,
         tool_results @ [JObj [(''tool_use_id'', dict_get content_item ''tool_use_id''),
                               (''content'', dict_get content_item ''content'')]],
         thinking)
      else (text_content, tool_uses, tool_results, thinking))"
| "process_content_item _ acc = acc"

fun process_content_parts :: "json list \<Rightarrow> blocks \<Rightarrow> blocks" where
  "process_content_parts [] acc = acc"
| "process_content_parts (content_item # rest) acc =
     process_content_parts rest (process_content_item content_item acc)"

subsection \<open>One \<^verbatim>\<open>message\<close> record (lines 58 to 119)\<close>

text \<open>Lines 107 to 117: the message dictionary from the collected blocks.\<close>

definition finish_message :: "dict \<Rightarrow> blocks \<Rightarrow> error + dict" where
  "finish_message msg acc =
     (case acc of (text_content, tool_uses, tool_results, thinking) \<Rightarrow>
        (case str_join [CHR 0x0A] text_content of
           Inl e \<Rightarrow> Inl e
         | Inr s \<Rightarrow>
             (let msg1 = dict_set ''content'' (JStr s) msg;
                  msg2 = (if truthy thinking then dict_set ''thinking'' thinking msg1 else msg1);
                  msg3 = (if tool_uses \<noteq> [] then dict_set ''tool_uses'' (JArr tool_uses) msg2
                          else msg2);
                  msg4 = (if tool_results \<noteq> []
                          then dict_set ''tool_results'' (JArr tool_results) msg3 else msg3)
              in Inr msg4)))"

definition process_message :: "dict \<Rightarrow> conversation \<Rightarrow> error + conversation" where
  "process_message obj c =
     (case dict_get_default obj ''message'' (JObj []) of
        JObj message \<Rightarrow>
          (let role = dict_get message ''role'' in
           if role \<notin> set [JStr ''user'', JStr ''assistant''] then Inr c
           else
             (let content_parts = content_parts_of (dict_get_default message ''content'' (JArr []));
                  msg = [(''role'', role), (''content'', JStr ''''),
                         (''timestamp'', dict_get obj ''timestamp'')]
              in case finish_message msg
                        (process_content_parts content_parts ([], [], [], JNull)) of
                   Inl e \<Rightarrow> Inl e
                 | Inr msg' \<Rightarrow> Inr (c\<lparr>messages := messages c @ [msg']\<rparr>)))
      | _ \<Rightarrow> Inl AttributeError)"

subsection \<open>One \<^verbatim>\<open>todo_state\<close> record (lines 121 to 124)\<close>

definition process_todo_state :: "dict \<Rightarrow> conversation \<Rightarrow> conversation" where
  "process_todo_state obj c =
     (if messages c \<noteq> [] \<and> \<not> dict_has (last (messages c)) ''todos''
      then c\<lparr>messages :=
               butlast (messages c) @
               [dict_set ''todos'' (dict_get obj ''todos'') (last (messages c))]\<rparr>
      else c)"

subsection \<open>The loop over the lines of a file (lines 45 to 127)\<close>

fun process_line :: "line \<Rightarrow> conversation \<Rightarrow> error + conversation" where
  "process_line Blank c = Inr c"
| "process_line Malformed c = Inr c"
| "process_line (LoadsRaises e) c = Inl e"
| "process_line (ReadRaises e) c = Inl e"
| "process_line (Decoded (JObj obj)) c =
     (let msg_type = dict_get obj ''type'' in
      if msg_type = JStr ''session_start'' then
        Inr (c\<lparr>session_title := dict_get_default obj ''title'' (JStr ''New Session''),
               session_owner := dict_get obj ''owner''\<rparr>)
      else if msg_type = JStr ''message'' then process_message obj c
      else if msg_type = JStr ''todo_state'' then Inr (process_todo_state obj c)
      else Inr c)"
| "process_line (Decoded _) c = Inl AttributeError"

fun scan_lines :: "line list \<Rightarrow> conversation \<Rightarrow> error + conversation" where
  "scan_lines [] c = Inr c"
| "scan_lines (l # ls) c =
     (case process_line l c of Inl e \<Rightarrow> Inl e | Inr c' \<Rightarrow> scan_lines ls c')"

subsection \<open>The loop over the files (lines 37 to 143)\<close>

text \<open>Lines 39 to 42 and the constant keys of lines 132, 133 and 136.\<close>

definition start :: "session_file \<Rightarrow> conversation" where
  "start jsonl_file =
     \<lparr>messages = [], source = ''droid'', session_id = stem jsonl_file,
      session_title = JNull, session_owner = JNull, source_file = path jsonl_file\<rparr>"

text \<open>The body of the outer \<^verbatim>\<open>try\<close> up to line 127: open the file and scan it.\<close>

definition scan_file :: "session_file \<Rightarrow> error + conversation" where
  "scan_file jsonl_file =
     (case contents jsonl_file of
        Inl e \<Rightarrow> Inl e
      | Inr ls \<Rightarrow> scan_lines ls (start jsonl_file))"

text \<open>
  The loop over \<^verbatim>\<open>jsonl_files\<close>. An exception of the scan is caught and reported by the
  \<^verbatim>\<open>print\<close> of line 140, and the loop goes on with the next file (line 141); the \<^verbatim>\<open>print\<close>
  runs inside the handler, so an exception it raises is caught by nothing and ends the
  whole extraction. A scan that ends with no message appends nothing (line 129).
\<close>

fun extract_files ::
  "session_file list \<Rightarrow> conversation list \<Rightarrow> error + conversation list" where
  "extract_files [] conversations = Inr conversations"
| "extract_files (jsonl_file # rest) conversations =
     (case scan_file jsonl_file of
        Inl e \<Rightarrow>
          (case print_raises jsonl_file of
             Some e' \<Rightarrow> Inl e'
           | None \<Rightarrow> extract_files rest conversations)
      | Inr c \<Rightarrow>
          if messages c \<noteq> [] then extract_files rest (conversations @ [c])
          else extract_files rest conversations)"

text \<open>
  \<^verbatim>\<open>extract_droid_sessions\<close>, on what \<^verbatim>\<open>find_droid_sessions\<close> and the glob give: \<open>None\<close> when
  the sessions directory does not exist, otherwise the files in enumeration order. It
  returns the list of conversations, or raises what a \<^verbatim>\<open>print\<close> of line 140 raised.
\<close>

definition extract_droid_sessions ::
  "session_file list option \<Rightarrow> error + conversation list" where
  "extract_droid_sessions sessions_dir =
     (case sessions_dir of
        None \<Rightarrow> Inr []
      | Some jsonl_files \<Rightarrow> extract_files jsonl_files [])"

subsection \<open>The statistics of \<^verbatim>\<open>main\<close> (lines 172 to 179)\<close>

record stats =
  total_messages :: nat
  user_messages :: nat
  assistant_messages :: nat
  with_tools :: nat
  with_thinking :: nat

text \<open>
  \<^verbatim>\<open>sum(1 for m in ms if m['role'] == r)\<close>: the subscript raises \<^verbatim>\<open>KeyError\<close> on a message
  with no \<^verbatim>\<open>role\<close> key.
\<close>

fun count_role :: "json \<Rightarrow> dict list \<Rightarrow> error + nat" where
  "count_role r [] = Inr 0"
| "count_role r (m # ms) =
     (case map_of m ''role'' of
        None \<Rightarrow> Inl KeyError
      | Some v \<Rightarrow>
          (case count_role r ms of
             Inl e \<Rightarrow> Inl e
           | Inr n \<Rightarrow> Inr ((if v = r then 1 else 0) + n)))"

definition statistics :: "conversation list \<Rightarrow> error + stats" where
  "statistics conversations =
     (case count_role (JStr ''user'') (concat (map messages conversations)) of
        Inl e \<Rightarrow> Inl e
      | Inr users \<Rightarrow>
          (case count_role (JStr ''assistant'') (concat (map messages conversations)) of
             Inl e \<Rightarrow> Inl e
           | Inr assistants \<Rightarrow>
               Inr \<lparr>total_messages = sum_list (map (\<lambda>c. length (messages c)) conversations),
                    user_messages = users,
                    assistant_messages = assistants,
                    with_tools =
                      length (filter (\<lambda>c. list_ex (\<lambda>m. dict_has m ''tool_uses'' \<or>
                                                        dict_has m ''tool_results'')
                                                (messages c)) conversations),
                    with_thinking =
                      length (filter (\<lambda>c. list_ex (\<lambda>m. dict_has m ''thinking'') (messages c))
                                conversations)\<rparr>))"

section \<open>The vocabulary of the specification\<close>

text \<open>
  A content block of a given type: a dictionary whose \<^verbatim>\<open>type\<close> is that string. The
  \<^verbatim>\<open>text\<close> value of a block defaults to the empty string, its \<^verbatim>\<open>thinking\<close> value to
  \<^verbatim>\<open>None\<close>.
\<close>

fun is_block_of :: "string \<Rightarrow> json \<Rightarrow> bool" where
  "is_block_of t (JObj content_item) = (dict_get content_item ''type'' = JStr t)"
| "is_block_of t _ = False"

fun text_value :: "json \<Rightarrow> json" where
  "text_value (JObj content_item) = dict_get_default content_item ''text'' (JStr '''')"
| "text_value _ = JStr ''''"

fun thinking_value :: "json \<Rightarrow> json" where
  "thinking_value (JObj content_item) = dict_get content_item ''thinking''"
| "thinking_value _ = JNull"

text \<open>The \<^verbatim>\<open>thinking\<close> value of the last thinking block, \<^verbatim>\<open>None\<close> when there is none.\<close>

definition last_thinking :: "json list \<Rightarrow> json" where
  "last_thinking items =
     (if filter (is_block_of ''thinking'') items = [] then JNull
      else thinking_value (last (filter (is_block_of ''thinking'') items)))"

text \<open>A value that is neither a list nor a dictionary.\<close>

fun scalar :: "json \<Rightarrow> bool" where
  "scalar (JArr xs) = False"
| "scalar (JObj kvs) = False"
| "scalar v = True"

text \<open>
  A qualifying record: a line that decodes to a \<^verbatim>\<open>message\<close>-type record whose role is
  \<^verbatim>\<open>user\<close> or \<^verbatim>\<open>assistant\<close>.
\<close>

fun qualifying :: "line \<Rightarrow> bool" where
  "qualifying (Decoded (JObj obj)) =
     (dict_get obj ''type'' = JStr ''message'' \<and>
      (case dict_get_default obj ''message'' (JObj []) of
         JObj message \<Rightarrow>
           dict_get message ''role'' = JStr ''user'' \<or>
           dict_get message ''role'' = JStr ''assistant''
       | _ \<Rightarrow> False))"
| "qualifying _ = False"

text \<open>The lines of a file that opens, none for a file that does not.\<close>

definition lines_of :: "session_file \<Rightarrow> line list" where
  "lines_of jsonl_file = (case contents jsonl_file of Inl e \<Rightarrow> [] | Inr ls \<Rightarrow> ls)"

text \<open>
  What a file adds to the list of conversations when the loop goes past it: the state at
  the end of its scan if that has a message, nothing otherwise. And the exception with
  which a file ends the extraction: that of the \<^verbatim>\<open>print\<close>, when the scan of the file raises.
\<close>

definition conversations_of :: "session_file \<Rightarrow> conversation list" where
  "conversations_of jsonl_file =
     (case scan_file jsonl_file of
        Inl e \<Rightarrow> []
      | Inr c \<Rightarrow> if messages c \<noteq> [] then [c] else [])"

definition aborts :: "session_file \<Rightarrow> error option" where
  "aborts jsonl_file =
     (case scan_file jsonl_file of Inl e \<Rightarrow> print_raises jsonl_file | Inr c \<Rightarrow> None)"

text \<open>The \<^verbatim>\<open>session_start\<close> records of a list of lines, in order.\<close>

fun session_starts :: "line list \<Rightarrow> dict list" where
  "session_starts [] = []"
| "session_starts (Decoded (JObj obj) # ls) =
     (if dict_get obj ''type'' = JStr ''session_start'' then obj # session_starts ls
      else session_starts ls)"
| "session_starts (_ # ls) = session_starts ls"

text \<open>
  The summary counters recomputed from a list of conversations, in the words of the
  specification: a field counts for \<open>with_tools\<close> when it is present and non-empty.
\<close>

definition nonempty_field :: "dict \<Rightarrow> string \<Rightarrow> bool" where
  "nonempty_field m k = (case map_of m k of None \<Rightarrow> False | Some v \<Rightarrow> truthy v)"

definition recomputed :: "conversation list \<Rightarrow> stats" where
  "recomputed convs =
     \<lparr>total_messages = sum_list (map (\<lambda>c. length (messages c)) convs),
      user_messages =
        length (filter (\<lambda>m. map_of m ''role'' = Some (JStr ''user''))
                  (concat (map messages convs))),
      assistant_messages =
        length (filter (\<lambda>m. map_of m ''role'' = Some (JStr ''assistant''))
                  (concat (map messages convs))),
      with_tools =
        length (filter (\<lambda>c. list_ex (\<lambda>m. nonempty_field m ''tool_uses'' \<or>
                                          nonempty_field m ''tool_results'') (messages c))
                  convs),
      with_thinking =
        length (filter (\<lambda>c. list_ex (\<lambda>m. dict_has m ''thinking'') (messages c)) convs)\<rparr>"

text \<open>
  What every message built by the extraction satisfies: it has a role, and a
  \<^verbatim>\<open>tool_uses\<close> or \<^verbatim>\<open>tool_results\<close> key only with a non-empty value.
\<close>

definition built_message :: "dict \<Rightarrow> bool" where
  "built_message m =
     (map_of m ''role'' \<noteq> None \<and>
      (dict_has m ''tool_uses'' = nonempty_field m ''tool_uses'') \<and>
      (dict_has m ''tool_results'' = nonempty_field m ''tool_results''))"

subsection \<open>Example records\<close>

abbreviation text_block :: "string \<Rightarrow> json" where
  "text_block s \<equiv> JObj [(''type'', JStr ''text''), (''text'', JStr s)]"

abbreviation thinking_block :: "string \<Rightarrow> json" where
  "thinking_block s \<equiv> JObj [(''type'', JStr ''thinking''), (''thinking'', JStr s)]"

abbreviation message_record :: "string \<Rightarrow> json \<Rightarrow> dict" where
  "message_record r v \<equiv>
     [(''type'', JStr ''message''),
      (''message'', JObj [(''role'', JStr r), (''content'', v)])]"

abbreviation session_start_record :: "string \<Rightarrow> string \<Rightarrow> dict" where
  "session_start_record t ow \<equiv>
     [(''type'', JStr ''session_start''), (''title'', JStr t), (''owner'', JStr ow)]"

abbreviation todo_state_record :: "json \<Rightarrow> dict" where
  "todo_state_record v \<equiv> [(''type'', JStr ''todo_state''), (''todos'', v)]"

abbreviation built :: "string \<Rightarrow> string \<Rightarrow> dict" where
  "built r s \<equiv> [(''role'', JStr r), (''content'', JStr s), (''timestamp'', JNull)]"

abbreviation session :: "string \<Rightarrow> error + line list \<Rightarrow> session_file" where
  "session n ls \<equiv>
     \<lparr>stem = n, path = ''/home/u/.factory/sessions/'' @ n @ ''.jsonl'', contents = ls,
      print_raises = None\<rparr>"

abbreviation unprintable :: "string \<Rightarrow> error + line list \<Rightarrow> session_file" where
  "unprintable n ls \<equiv>
     \<lparr>stem = n, path = ''/home/u/.factory/sessions/'' @ n @ ''.jsonl'', contents = ls,
      print_raises = Some UnicodeEncodeError\<rparr>"

abbreviation conv :: "string \<Rightarrow> dict list \<Rightarrow> json \<Rightarrow> json \<Rightarrow> conversation" where
  "conv n ms t ow \<equiv>
     \<lparr>messages = ms, source = ''droid'', session_id = n, session_title = t,
      session_owner = ow, source_file = ''/home/u/.factory/sessions/'' @ n @ ''.jsonl''\<rparr>"

section \<open>Dictionaries and the loops\<close>

lemma map_of_dict_set: "map_of (dict_set k v d) = (map_of d)(k \<mapsto> v)"
  by (induction d) (auto simp: fun_eq_iff)

text \<open>
  The joined string without recursion: every string but the last followed by the
  separator, then the last string.
\<close>

lemma join_concat:
  "join sep xs =
     (if xs = [] then [] else concat (map (\<lambda>s. s @ sep) (butlast xs)) @ last xs)"
  by (induction sep xs rule: join.induct) simp_all

lemma scan_lines_append:
  "scan_lines (xs @ ys) c =
     (case scan_lines xs c of Inl e \<Rightarrow> Inl e | Inr c' \<Rightarrow> scan_lines ys c')"
  by (induction xs arbitrary: c) (auto split: sum.splits)

lemma scan_lines_malformed:
  "scan_lines (pre @ Malformed # post) c = scan_lines (pre @ post) c"
  by (simp add: scan_lines_append split: sum.splits)

lemma extract_files_append:
  "extract_files (fs @ gs) acc =
     (case extract_files fs acc of Inl e \<Rightarrow> Inl e | Inr acc' \<Rightarrow> extract_files gs acc')"
  by (induction fs arbitrary: acc) (auto split: sum.splits option.splits)

text \<open>
  The extraction returns exactly when no file ends it, and then with what the files add,
  in order.
\<close>

lemma extract_files_Inr:
  "extract_files fs acc = Inr out \<longleftrightarrow>
     list_all (\<lambda>g. aborts g = None) fs \<and> out = acc @ concat (map conversations_of fs)"
  by (induction fs arbitrary: acc)
    (auto simp add: aborts_def conversations_of_def split: sum.splits option.splits)

lemma extract_droid_sessions_Inr:
  "extract_droid_sessions (Some fs) = Inr out \<longleftrightarrow>
     list_all (\<lambda>g. aborts g = None) fs \<and> out = concat (map conversations_of fs)"
  by (simp add: extract_droid_sessions_def extract_files_Inr)

lemma extract_droid_sessions_single:
  "extract_droid_sessions (Some [f]) =
     (case scan_file f of
        Inl e \<Rightarrow> (case print_raises f of Some e' \<Rightarrow> Inl e' | None \<Rightarrow> Inr [])
      | Inr c \<Rightarrow> Inr (if messages c \<noteq> [] then [c] else []))"
  by (simp add: extract_droid_sessions_def split: sum.splits option.splits)

lemma extract_droid_sessions_split:
  assumes "extract_droid_sessions (Some (fs @ f # gs)) = Inr out"
  shows "\<exists>before after.
           extract_droid_sessions (Some fs) = Inr before \<and>
           extract_droid_sessions (Some gs) = Inr after \<and>
           aborts f = None \<and> out = before @ conversations_of f @ after"
  using assms by (simp add: extract_droid_sessions_Inr)

section \<open>Decode failures are skipped line by line\<close>

text \<open>
  C4. A non-blank line on which \<^verbatim>\<open>json.loads\<close> raises \<^verbatim>\<open>JSONDecodeError\<close> is skipped and the
  loop goes on with the next line: the scan of a file with such a line anywhere in it is
  the scan of the file without the line, so every later line is parsed into the
  conversation as if the malformed line were not there. A non-blank line on which
  \<^verbatim>\<open>json.loads\<close> raises another exception is not skipped: the handler of line 126 names
  \<^verbatim>\<open>JSONDecodeError\<close> only, so the scan of the file ends there with that exception.
\<close>

theorem malformed_line_skipped:
  "process_line Malformed c = Inr c \<and>
   scan_lines (pre @ Malformed # post) c = scan_lines (pre @ post) c \<and>
   scan_file (f\<lparr>contents := Inr (pre @ Malformed # post)\<rparr>) =
     scan_file (f\<lparr>contents := Inr (pre @ post)\<rparr>) \<and>
   (scan_lines pre (start f) = Inr c' \<longrightarrow>
      scan_file (f\<lparr>contents := Inr (pre @ LoadsRaises e # post)\<rparr>) = Inl e)"
proof -
  have skipped: "scan_file (f\<lparr>contents := Inr (pre @ Malformed # post)\<rparr>) =
      scan_file (f\<lparr>contents := Inr (pre @ post)\<rparr>)"
    by (simp add: scan_lines_malformed scan_file_def start_def)
  have "scan_file (f\<lparr>contents := Inr (pre @ LoadsRaises e # post)\<rparr>) = Inl e"
    if "scan_lines pre (start f) = Inr c'"
    using that by (simp add: scan_lines_append scan_file_def start_def)
  then show ?thesis
    using skipped by (simp add: scan_lines_malformed)
qed

theorem malformed_line_skipped_witness:
  "extract_droid_sessions
     (Some [session ''s1''
       (Inr [Decoded (JObj (message_record ''user'' (JArr [text_block ''a'']))),
             Malformed,
             Decoded (JObj (message_record ''assistant'' (JArr [text_block ''b''])))])]) =
   Inr [conv ''s1'' [built ''user'' ''a'', built ''assistant'' ''b''] JNull JNull] \<and>
   scan_file (session ''s1''
       (Inr [Decoded (JObj (message_record ''user'' (JArr [text_block ''a'']))),
             LoadsRaises ValueError,
             Decoded (JObj (message_record ''assistant'' (JArr [text_block ''b''])))])) =
   Inl ValueError"
proof -
  let ?f = "session ''s1'' (Inr [])"
  let ?pre = "[Decoded (JObj (message_record ''user'' (JArr [text_block ''a''])))]"
  let ?post = "[Decoded (JObj (message_record ''assistant'' (JArr [text_block ''b''])))]"
  let ?c = "conv ''s1'' [built ''user'' ''a''] JNull JNull"
  have pre: "scan_lines ?pre (start ?f) = Inr ?c"
    by (simp add: start_def process_message_def finish_message_def str_join_def
        dict_get_def dict_get_default_def Let_def)
  have "scan_file (?f\<lparr>contents := Inr (?pre @ Malformed # ?post)\<rparr>) =
        scan_file (?f\<lparr>contents := Inr (?pre @ ?post)\<rparr>)"
    using malformed_line_skipped [where c = "start ?f" and pre = ?pre and post = ?post
        and f = ?f and c' = ?c and e = ValueError]
    by blast
  moreover have "scan_file (?f\<lparr>contents := Inr (?pre @ ?post)\<rparr>) =
      Inr (conv ''s1'' [built ''user'' ''a'', built ''assistant'' ''b''] JNull JNull)"
    by (simp add: scan_file_def start_def process_message_def finish_message_def
        str_join_def dict_get_def dict_get_default_def Let_def)
  ultimately have skipped: "extract_droid_sessions
     (Some [session ''s1'' (Inr (?pre @ Malformed # ?post))]) =
     Inr [conv ''s1'' [built ''user'' ''a'', built ''assistant'' ''b''] JNull JNull]"
    by (simp add: extract_droid_sessions_single)
  have "scan_file (?f\<lparr>contents := Inr (?pre @ LoadsRaises ValueError # ?post)\<rparr>) =
      Inl ValueError"
    using malformed_line_skipped [where c = "start ?f" and pre = ?pre and post = ?post
        and f = ?f and c' = ?c and e = ValueError] pre
    by blast
  then show ?thesis
    using skipped by simp
qed

theorem loads_raises_counterexample:
  "scan_file (session ''s1''
       (Inr [Decoded (JObj (message_record ''user'' (JArr [text_block ''a'']))),
             LoadsRaises RecursionError,
             Decoded (JObj (message_record ''assistant'' (JArr [text_block ''b''])))])) =
   Inl RecursionError \<and>
   extract_droid_sessions
     (Some [session ''s1''
       (Inr [Decoded (JObj (message_record ''user'' (JArr [text_block ''a'']))),
             LoadsRaises RecursionError,
             Decoded (JObj (message_record ''assistant'' (JArr [text_block ''b''])))])]) =
   Inr [] \<and>
   extract_droid_sessions
     (Some [session ''s1''
       (Inr [Decoded (JObj (message_record ''user'' (JArr [text_block ''a'']))),
             Decoded (JObj (message_record ''assistant'' (JArr [text_block ''b''])))])]) =
   Inr [conv ''s1'' [built ''user'' ''a'', built ''assistant'' ''b''] JNull JNull]"
  by (simp add: extract_droid_sessions_single scan_file_def start_def process_message_def
      finish_message_def str_join_def dict_get_def dict_get_default_def Let_def)

section \<open>A failing file is skipped, the others are kept\<close>

text \<open>
  C5. When the scan of one file of the directory raises an exception (the file cannot be
  opened or read, or a line raises an error that is not a decode error) and the report of
  line 140 is printed, that file adds nothing: the extraction does what it does on the
  directory without the file, and when the files before it give \<open>before\<close> and the files
  after it give \<open>after\<close>, the output is \<open>before\<close> followed by \<open>after\<close>.
\<close>

theorem failing_file_skipped:
  assumes "scan_file f = Inl e"
    and "print_raises f = None"
  shows "extract_droid_sessions (Some (fs @ f # gs)) = extract_droid_sessions (Some (fs @ gs)) \<and>
         (extract_droid_sessions (Some fs) = Inr before \<and>
          extract_droid_sessions (Some gs) = Inr after \<longrightarrow>
            extract_droid_sessions (Some (fs @ f # gs)) = Inr (before @ after))"
proof -
  have step: "extract_files (f # gs) acc = extract_files gs acc" for acc
    using assms by simp
  have "extract_files (fs @ f # gs) [] = extract_files (fs @ gs) []"
    unfolding extract_files_append step ..
  then have same:
    "extract_droid_sessions (Some (fs @ f # gs)) = extract_droid_sessions (Some (fs @ gs))"
    by (simp add: extract_droid_sessions_def)
  have skip: "aborts f = None \<and> conversations_of f = []"
    using assms by (simp add: aborts_def conversations_of_def)
  have "extract_droid_sessions (Some (fs @ f # gs)) = Inr (before @ after)"
    if "extract_droid_sessions (Some fs) = Inr before"
      and "extract_droid_sessions (Some gs) = Inr after"
    using that skip by (simp add: extract_droid_sessions_Inr)
  then show ?thesis
    using same by blast
qed

theorem failing_file_skipped_witness:
  "scan_file (session ''s2'' (Inl OSError)) = Inl OSError \<and>
   print_raises (session ''s2'' (Inl OSError)) = None \<and>
   extract_droid_sessions
     (Some [session ''s1'' (Inr [Decoded (JObj (message_record ''user'' (JArr [text_block ''a''])))]),
            session ''s2'' (Inl OSError),
            session ''s3'' (Inr [Decoded (JObj (message_record ''user'' (JArr [text_block ''c''])))])]) =
   Inr [conv ''s1'' [built ''user'' ''a''] JNull JNull,
        conv ''s3'' [built ''user'' ''c''] JNull JNull]"
proof -
  let ?f1 = "session ''s1'' (Inr [Decoded (JObj (message_record ''user'' (JArr [text_block ''a''])))])"
  let ?f3 = "session ''s3'' (Inr [Decoded (JObj (message_record ''user'' (JArr [text_block ''c''])))])"
  have bad: "scan_file (session ''s2'' (Inl OSError)) = Inl OSError"
    by (simp add: scan_file_def)
  have printed: "print_raises (session ''s2'' (Inl OSError)) = None"
    by simp
  have one: "extract_droid_sessions (Some [?f1]) =
      Inr [conv ''s1'' [built ''user'' ''a''] JNull JNull]"
    by (simp add: extract_droid_sessions_single scan_file_def start_def process_message_def
        finish_message_def str_join_def dict_get_def dict_get_default_def Let_def)
  have three: "extract_droid_sessions (Some [?f3]) =
      Inr [conv ''s3'' [built ''user'' ''c''] JNull JNull]"
    by (simp add: extract_droid_sessions_single scan_file_def start_def process_message_def
        finish_message_def str_join_def dict_get_def dict_get_default_def Let_def)
  have "extract_droid_sessions (Some ([?f1] @ session ''s2'' (Inl OSError) # [?f3])) =
      Inr ([conv ''s1'' [built ''user'' ''a''] JNull JNull] @
           [conv ''s3'' [built ''user'' ''c''] JNull JNull])"
    using failing_file_skipped [OF bad printed, where fs = "[?f1]" and gs = "[?f3]"
        and before = "[conv ''s1'' [built ''user'' ''a''] JNull JNull]"
        and after = "[conv ''s3'' [built ''user'' ''c''] JNull JNull]"] one three
    by blast
  then show ?thesis
    using bad printed by simp
qed

theorem print_raises_counterexample:
  "scan_file (unprintable ''s2'' (Inl OSError)) = Inl OSError \<and>
   extract_droid_sessions
     (Some [session ''s1'' (Inr [Decoded (JObj (message_record ''user'' (JArr [text_block ''a''])))]),
            unprintable ''s2'' (Inl OSError),
            session ''s3'' (Inr [Decoded (JObj (message_record ''user'' (JArr [text_block ''c''])))])]) =
   Inl UnicodeEncodeError \<and>
   extract_droid_sessions
     (Some [session ''s1'' (Inr [Decoded (JObj (message_record ''user'' (JArr [text_block ''a''])))]),
            session ''s3'' (Inr [Decoded (JObj (message_record ''user'' (JArr [text_block ''c''])))])]) =
   Inr [conv ''s1'' [built ''user'' ''a''] JNull JNull,
        conv ''s3'' [built ''user'' ''c''] JNull JNull]"
  by (simp add: extract_droid_sessions_def scan_file_def start_def process_message_def
      finish_message_def str_join_def dict_get_def dict_get_default_def Let_def)

section \<open>The message built from one record\<close>

lemma process_content_item_text:
  "fst (process_content_item item (tc, tu, tr, th)) =
     (if is_block_of ''text'' item then tc @ [text_value item] else tc)"
  by (cases item) (simp_all add: Let_def)

lemma process_content_item_thinking:
  "snd (snd (snd (process_content_item item (tc, tu, tr, th)))) =
     (if is_block_of ''thinking'' item then thinking_value item else th)"
  by (cases item) (simp_all add: Let_def)

lemma process_content_parts_text:
  "fst (process_content_parts items (tc, tu, tr, th)) =
     tc @ map text_value (filter (is_block_of ''text'') items)"
proof (induction items arbitrary: tc tu tr th)
  case Nil
  show ?case by simp
next
  case (Cons item items)
  obtain tc' tu' tr' th'
    where step: "process_content_item item (tc, tu, tr, th) = (tc', tu', tr', th')"
    by (cases "process_content_item item (tc, tu, tr, th)") auto
  have "tc' = (if is_block_of ''text'' item then tc @ [text_value item] else tc)"
    using process_content_item_text [of item tc tu tr th] step by simp
  then show ?case
    using Cons.IH [of tc' tu' tr' th'] step by simp
qed

lemma process_content_parts_thinking:
  "snd (snd (snd (process_content_parts items (tc, tu, tr, th)))) =
     (if filter (is_block_of ''thinking'') items = [] then th
      else thinking_value (last (filter (is_block_of ''thinking'') items)))"
proof (induction items arbitrary: tc tu tr th)
  case Nil
  show ?case by simp
next
  case (Cons item items)
  obtain tc' tu' tr' th'
    where step: "process_content_item item (tc, tu, tr, th) = (tc', tu', tr', th')"
    by (cases "process_content_item item (tc, tu, tr, th)") auto
  have th': "th' = (if is_block_of ''thinking'' item then thinking_value item else th)"
    using process_content_item_thinking [of item tc tu tr th] step by simp
  show ?case
    using Cons.IH [of tc' tu' tr' th'] step th' by simp
qed

lemma finish_message_Inr:
  assumes "strings_of tc = Some ss"
  shows "\<exists>m. finish_message msg (tc, tu, tr, th) = Inr m \<and>
           map_of m =
             (map_of msg)(''content'' \<mapsto> JStr (join [CHR 0x0A] ss))
               ++ (if truthy th then [''thinking'' \<mapsto> th] else Map.empty)
               ++ (if tu \<noteq> [] then [''tool_uses'' \<mapsto> JArr tu] else Map.empty)
               ++ (if tr \<noteq> [] then [''tool_results'' \<mapsto> JArr tr] else Map.empty)"
  using assms by (simp add: finish_message_def str_join_def Let_def map_of_dict_set)

lemma finish_message_Inl:
  "strings_of tc = None \<Longrightarrow> finish_message msg (tc, tu, tr, th) = Inl TypeError"
  by (simp add: finish_message_def str_join_def)

text \<open>
  A record whose \<^verbatim>\<open>message\<close> is a dictionary with role \<^verbatim>\<open>user\<close> or \<^verbatim>\<open>assistant\<close>, and whose
  text blocks all carry strings, appends one message; its keys are read off the blocks.
\<close>

lemma process_message_Inr:
  assumes msg: "dict_get_default obj ''message'' (JObj []) = JObj message"
    and role: "dict_get message ''role'' = JStr ''user'' \<or>
               dict_get message ''role'' = JStr ''assistant''"
    and parts: "content_parts_of (dict_get_default message ''content'' (JArr [])) = items"
    and texts: "strings_of (map text_value (filter (is_block_of ''text'') items)) = Some ss"
  shows "\<exists>m. process_message obj c = Inr (c\<lparr>messages := messages c @ [m]\<rparr>) \<and>
           map_of m ''role'' = Some (dict_get message ''role'') \<and>
           map_of m ''content'' = Some (JStr (join [CHR 0x0A] ss)) \<and>
           map_of m ''thinking'' =
             (if truthy (last_thinking items) then Some (last_thinking items) else None) \<and>
           built_message m"
proof -
  obtain tc tu tr th
    where acc: "process_content_parts items ([], [], [], JNull) = (tc, tu, tr, th)"
    by (cases "process_content_parts items ([], [], [], JNull)") auto
  have tc: "tc = map text_value (filter (is_block_of ''text'') items)"
    using process_content_parts_text [of items "[]" "[]" "[]" JNull] acc by simp
  have th: "th = last_thinking items"
    using process_content_parts_thinking [of items "[]" "[]" "[]" JNull] acc
    by (simp add: last_thinking_def)
  let ?msg = "[(''role'', dict_get message ''role''), (''content'', JStr ''''),
               (''timestamp'', dict_get obj ''timestamp'')]"
  obtain m where fin: "finish_message ?msg (tc, tu, tr, th) = Inr m"
    and look: "map_of m =
             (map_of ?msg)(''content'' \<mapsto> JStr (join [CHR 0x0A] ss))
               ++ (if truthy th then [''thinking'' \<mapsto> th] else Map.empty)
               ++ (if tu \<noteq> [] then [''tool_uses'' \<mapsto> JArr tu] else Map.empty)
               ++ (if tr \<noteq> [] then [''tool_results'' \<mapsto> JArr tr] else Map.empty)"
    using finish_message_Inr [of tc ss ?msg tu tr th] texts tc by blast
  have "process_message obj c = Inr (c\<lparr>messages := messages c @ [m]\<rparr>)"
    using msg role parts acc fin by (auto simp add: process_message_def Let_def)
  moreover have "map_of m ''role'' = Some (dict_get message ''role'')"
    unfolding look by simp
  moreover have "map_of m ''content'' = Some (JStr (join [CHR 0x0A] ss))"
    unfolding look by simp
  moreover have "map_of m ''thinking'' =
             (if truthy (last_thinking items) then Some (last_thinking items) else None)"
    unfolding look th by simp
  moreover have "built_message m"
    unfolding built_message_def dict_has_def nonempty_field_def look by simp
  ultimately show ?thesis by blast
qed

lemma process_message_Inl:
  assumes msg: "dict_get_default obj ''message'' (JObj []) = JObj message"
    and role: "dict_get message ''role'' = JStr ''user'' \<or>
               dict_get message ''role'' = JStr ''assistant''"
    and parts: "content_parts_of (dict_get_default message ''content'' (JArr [])) = items"
    and texts: "strings_of (map text_value (filter (is_block_of ''text'') items)) = None"
  shows "process_message obj c = Inl TypeError"
proof -
  obtain tc tu tr th
    where acc: "process_content_parts items ([], [], [], JNull) = (tc, tu, tr, th)"
    by (cases "process_content_parts items ([], [], [], JNull)") auto
  have tc: "tc = map text_value (filter (is_block_of ''text'') items)"
    using process_content_parts_text [of items "[]" "[]" "[]" JNull] acc by simp
  show ?thesis
    using msg role parts acc finish_message_Inl [of tc _ tu tr th] texts tc
    by (auto simp add: process_message_def Let_def)
qed

lemma strings_of_map_JStr: "strings_of (map JStr ss) = Some ss"
  by (induction ss) simp_all

text \<open>
  C6. A \<^verbatim>\<open>message\<close> record with role \<^verbatim>\<open>user\<close> or \<^verbatim>\<open>assistant\<close> whose content is the list
  \<open>blocks\<close> (or is absent, which reads as the empty list) and whose text blocks carry the
  strings \<open>texts\<close>, in block order, appends one message whose \<^verbatim>\<open>content\<close> is the newline-joined
  concatenation of \<open>texts\<close>: every string but the last followed by a newline, then the last
  string. It is the empty string when there is no text block. A text block with no
  \<^verbatim>\<open>text\<close> key counts as the empty string.
\<close>

theorem content_is_joined_text:
  assumes "dict_get obj ''type'' = JStr ''message''"
    and "dict_get_default obj ''message'' (JObj []) = JObj message"
    and "dict_get message ''role'' = JStr ''user'' \<or>
         dict_get message ''role'' = JStr ''assistant''"
    and "dict_get_default message ''content'' (JArr []) = JArr blocks"
    and "map text_value (filter (is_block_of ''text'') blocks) = map JStr texts"
  shows "\<exists>m. process_line (Decoded (JObj obj)) c = Inr (c\<lparr>messages := messages c @ [m]\<rparr>) \<and>
           map_of m ''content'' =
             Some (JStr (if texts = [] then ''''
                         else concat (map (\<lambda>s. s @ [CHR 0x0A]) (butlast texts)) @ last texts)) \<and>
           (filter (is_block_of ''text'') blocks = [] \<longrightarrow>
              map_of m ''content'' = Some (JStr ''''))"
proof -
  have parts: "content_parts_of (dict_get_default message ''content'' (JArr [])) = blocks"
    using assms(4) by simp
  have strings: "strings_of (map text_value (filter (is_block_of ''text'') blocks)) = Some texts"
    using assms(5) by (simp add: strings_of_map_JStr)
  obtain m where m: "process_message obj c = Inr (c\<lparr>messages := messages c @ [m]\<rparr>)"
    and content: "map_of m ''content'' = Some (JStr (join [CHR 0x0A] texts))"
    using process_message_Inr [OF assms(2) assms(3) parts strings, of c] by blast
  have line: "process_line (Decoded (JObj obj)) c = process_message obj c"
    using assms(1) by simp
  have none: "filter (is_block_of ''text'') blocks = [] \<longrightarrow> texts = []"
    using assms(5) by auto
  have "map_of m ''content'' =
      Some (JStr (if texts = [] then ''''
                  else concat (map (\<lambda>s. s @ [CHR 0x0A]) (butlast texts)) @ last texts))"
    using content join_concat [of "[CHR 0x0A]" texts] by simp
  then show ?thesis
    using m line none by auto
qed

theorem content_is_joined_text_witness:
  "map text_value (filter (is_block_of ''text'')
       [text_block ''a'', thinking_block ''t'', text_block ''b'', text_block ''c'']) =
     map JStr [''a'', ''b'', ''c''] \<and>
   (\<exists>m. process_line
          (Decoded (JObj (message_record ''user''
             (JArr [text_block ''a'', thinking_block ''t'', text_block ''b'',
                    text_block ''c'']))))
          (conv ''s1'' [] JNull JNull) =
        Inr (conv ''s1'' [m] JNull JNull) \<and>
        map_of m ''content'' =
          Some (JStr [CHR ''a'', CHR 0x0A, CHR ''b'', CHR 0x0A, CHR ''c''])) \<and>
   (\<exists>m. process_line
          (Decoded (JObj (message_record ''user'' (JArr [text_block ''a'', text_block ''b'']))))
          (conv ''s1'' [] JNull JNull) =
        Inr (conv ''s1'' [m] JNull JNull) \<and>
        map_of m ''content'' = Some (JStr [CHR ''a'', CHR 0x0A, CHR ''b''])) \<and>
   filter (is_block_of ''text'') [thinking_block ''t''] = [] \<and>
   (\<exists>m. process_line
          (Decoded (JObj (message_record ''user'' (JArr [thinking_block ''t'']))))
          (conv ''s1'' [] JNull JNull) =
        Inr (conv ''s1'' [m] JNull JNull) \<and>
        map_of m ''content'' = Some (JStr ''''))"
proof -
  let ?blocks = "[text_block ''a'', thinking_block ''t'', text_block ''b'', text_block ''c'']"
  let ?two = "[text_block ''a'', text_block ''b'']"
  let ?c = "conv ''s1'' [] JNull JNull"
  have texts: "map text_value (filter (is_block_of ''text'') ?blocks) =
      map JStr [''a'', ''b'', ''c'']"
    by (simp add: dict_get_def dict_get_default_def)
  have "\<exists>m. process_line (Decoded (JObj (message_record ''user'' (JArr ?blocks)))) ?c =
             Inr (?c\<lparr>messages := messages ?c @ [m]\<rparr>) \<and>
             map_of m ''content'' =
               Some (JStr [CHR ''a'', CHR 0x0A, CHR ''b'', CHR 0x0A, CHR ''c''])"
    using content_is_joined_text
      [where obj = "message_record ''user'' (JArr ?blocks)"
        and message = "[(''role'', JStr ''user''), (''content'', JArr ?blocks)]"
        and blocks = ?blocks and texts = "[''a'', ''b'', ''c'']" and c = ?c]
    by (simp add: dict_get_def dict_get_default_def)
  then have three: "\<exists>m. process_line (Decoded (JObj (message_record ''user'' (JArr ?blocks)))) ?c =
             Inr (conv ''s1'' [m] JNull JNull) \<and>
             map_of m ''content'' =
               Some (JStr [CHR ''a'', CHR 0x0A, CHR ''b'', CHR 0x0A, CHR ''c''])"
    by simp
  have "\<exists>m. process_line (Decoded (JObj (message_record ''user'' (JArr ?two)))) ?c =
             Inr (?c\<lparr>messages := messages ?c @ [m]\<rparr>) \<and>
             map_of m ''content'' = Some (JStr [CHR ''a'', CHR 0x0A, CHR ''b''])"
    using content_is_joined_text
      [where obj = "message_record ''user'' (JArr ?two)"
        and message = "[(''role'', JStr ''user''), (''content'', JArr ?two)]"
        and blocks = ?two and texts = "[''a'', ''b'']" and c = ?c]
    by (simp add: dict_get_def dict_get_default_def)
  then have two: "\<exists>m. process_line (Decoded (JObj (message_record ''user'' (JArr ?two)))) ?c =
             Inr (conv ''s1'' [m] JNull JNull) \<and>
             map_of m ''content'' = Some (JStr [CHR ''a'', CHR 0x0A, CHR ''b''])"
    by simp
  have none: "filter (is_block_of ''text'') [thinking_block ''t''] = []"
    by (simp add: dict_get_def)
  have "\<exists>m. process_line
               (Decoded (JObj (message_record ''user'' (JArr [thinking_block ''t''])))) ?c =
             Inr (?c\<lparr>messages := messages ?c @ [m]\<rparr>) \<and>
             map_of m ''content'' = Some (JStr '''')"
    using content_is_joined_text
      [where obj = "message_record ''user'' (JArr [thinking_block ''t''])"
        and message = "[(''role'', JStr ''user''), (''content'', JArr [thinking_block ''t''])]"
        and blocks = "[thinking_block ''t'']" and texts = "[]" and c = ?c]
    by (simp add: dict_get_def dict_get_default_def)
  then have empty: "\<exists>m. process_line
               (Decoded (JObj (message_record ''user'' (JArr [thinking_block ''t''])))) ?c =
             Inr (conv ''s1'' [m] JNull JNull) \<and>
             map_of m ''content'' = Some (JStr '''')"
    by simp
  show ?thesis
    using texts three two none empty by blast
qed

text \<open>
  C7. A \<^verbatim>\<open>message\<close> record with role \<^verbatim>\<open>user\<close> or \<^verbatim>\<open>assistant\<close> whose content list has at
  least one thinking block appends one message; the message has a \<^verbatim>\<open>thinking\<close> key exactly
  when the \<^verbatim>\<open>thinking\<close> value of the last thinking block is truthy (line 110), and the key
  then holds that value. When that value is absent, \<^verbatim>\<open>None\<close> or empty, the message has no
  \<^verbatim>\<open>thinking\<close> key, whatever the earlier thinking blocks hold.
\<close>

theorem thinking_last_truthy_wins:
  assumes "dict_get obj ''type'' = JStr ''message''"
    and "dict_get_default obj ''message'' (JObj []) = JObj message"
    and "dict_get message ''role'' = JStr ''user'' \<or>
         dict_get message ''role'' = JStr ''assistant''"
    and "dict_get_default message ''content'' (JArr []) = JArr blocks"
    and "filter (is_block_of ''thinking'') blocks \<noteq> []"
    and "strings_of (map text_value (filter (is_block_of ''text'') blocks)) = Some texts"
  shows "\<exists>m. process_line (Decoded (JObj obj)) c = Inr (c\<lparr>messages := messages c @ [m]\<rparr>) \<and>
           map_of m ''thinking'' =
             (if truthy (thinking_value (last (filter (is_block_of ''thinking'') blocks)))
              then Some (thinking_value (last (filter (is_block_of ''thinking'') blocks)))
              else None)"
proof -
  have parts: "content_parts_of (dict_get_default message ''content'' (JArr [])) = blocks"
    using assms(4) by simp
  have last: "last_thinking blocks =
      thinking_value (last (filter (is_block_of ''thinking'') blocks))"
    using assms(5) by (simp add: last_thinking_def)
  obtain m where m: "process_message obj c = Inr (c\<lparr>messages := messages c @ [m]\<rparr>)"
    and thinking: "map_of m ''thinking'' =
      (if truthy (last_thinking blocks) then Some (last_thinking blocks) else None)"
    using process_message_Inr [OF assms(2) assms(3) parts assms(6), of c] by blast
  have line: "process_line (Decoded (JObj obj)) c = process_message obj c"
    using assms(1) by simp
  show ?thesis
    using m thinking line last by auto
qed

theorem thinking_last_truthy_wins_witness:
  "filter (is_block_of ''thinking'') [thinking_block ''x'', thinking_block ''y''] \<noteq> [] \<and>
   (\<exists>m. process_line
          (Decoded (JObj (message_record ''assistant''
             (JArr [thinking_block ''x'', thinking_block ''y'']))))
          (conv ''s1'' [] JNull JNull) =
        Inr (conv ''s1'' [m] JNull JNull) \<and>
        map_of m ''thinking'' = Some (JStr ''y''))"
proof -
  let ?blocks = "[thinking_block ''x'', thinking_block ''y'']"
  let ?message = "[(''role'', JStr ''assistant''), (''content'', JArr ?blocks)]"
  have some: "filter (is_block_of ''thinking'') ?blocks \<noteq> []"
    by (simp add: dict_get_def)
  have "\<exists>m. process_line (Decoded (JObj (message_record ''assistant'' (JArr ?blocks))))
               (conv ''s1'' [] JNull JNull) =
             Inr ((conv ''s1'' [] JNull JNull)
                    \<lparr>messages := messages (conv ''s1'' [] JNull JNull) @ [m]\<rparr>) \<and>
             map_of m ''thinking'' = Some (JStr ''y'')"
    using thinking_last_truthy_wins
      [of "message_record ''assistant'' (JArr ?blocks)" ?message ?blocks "[]"
        "conv ''s1'' [] JNull JNull"]
    by (simp add: dict_get_def dict_get_default_def)
  then show ?thesis
    using some by simp
qed

theorem thinking_last_empty_counterexample:
  "filter (is_block_of ''thinking'') [thinking_block ''x'', thinking_block ''''] \<noteq> [] \<and>
   process_line
     (Decoded (JObj (message_record ''assistant''
        (JArr [thinking_block ''x'', thinking_block '''']))))
     (conv ''s1'' [] JNull JNull) =
   Inr (conv ''s1'' [built ''assistant'' ''''] JNull JNull) \<and>
   \<not> dict_has (built ''assistant'' '''') ''thinking''"
  by (simp add: process_message_def finish_message_def str_join_def dict_get_def
      dict_get_default_def dict_has_def Let_def)

text \<open>
  C10. A \<^verbatim>\<open>message\<close> record with role \<^verbatim>\<open>user\<close> or \<^verbatim>\<open>assistant\<close> whose content is a truthy value
  that is neither a list nor a dictionary (a non-empty string, a non-zero number,
  \<^verbatim>\<open>True\<close>) is wrapped as a one-element list, the item is skipped by the block loop, and the
  message appended has the empty string as \<^verbatim>\<open>content\<close> and no optional key.
\<close>

theorem scalar_content_is_empty:
  assumes "dict_get obj ''type'' = JStr ''message''"
    and "dict_get_default obj ''message'' (JObj []) = JObj message"
    and "dict_get message ''role'' = JStr ''user'' \<or>
         dict_get message ''role'' = JStr ''assistant''"
    and "dict_get_default message ''content'' (JArr []) = v"
    and "truthy v"
    and "scalar v"
  shows "content_parts_of v = [v] \<and>
         process_line (Decoded (JObj obj)) c =
           Inr (c\<lparr>messages := messages c @
                  [[(''role'', dict_get message ''role''), (''content'', JStr ''''),
                    (''timestamp'', dict_get obj ''timestamp'')]]\<rparr>)"
proof -
  have parts: "content_parts_of v = [v]"
    using assms(5) assms(6) by (cases v) simp_all
  have skip: "process_content_item v acc = acc" for acc
    using assms(6) by (cases v) simp_all
  have "process_message obj c =
           Inr (c\<lparr>messages := messages c @
                  [[(''role'', dict_get message ''role''), (''content'', JStr ''''),
                    (''timestamp'', dict_get obj ''timestamp'')]]\<rparr>)"
    using assms(2) assms(3) assms(4) parts skip
    by (auto simp add: process_message_def finish_message_def str_join_def Let_def)
  then show ?thesis
    using parts assms(1) by simp
qed

theorem scalar_content_is_empty_witness:
  "truthy (JStr ''hello'') \<and> scalar (JStr ''hello'') \<and>
   process_line (Decoded (JObj (message_record ''user'' (JStr ''hello''))))
     (conv ''s1'' [] JNull JNull) =
   Inr (conv ''s1'' [built ''user'' ''''] JNull JNull)"
  using scalar_content_is_empty
    [of "message_record ''user'' (JStr ''hello'')"
      "[(''role'', JStr ''user''), (''content'', JStr ''hello'')]" "JStr ''hello''"
      "conv ''s1'' [] JNull JNull"]
  by (simp add: dict_get_def dict_get_default_def)

theorem object_content_counterexample:
  "truthy (text_block ''hi'') \<and>
   content_parts_of (text_block ''hi'') = [text_block ''hi''] \<and>
   process_line (Decoded (JObj (message_record ''user'' (text_block ''hi''))))
     (conv ''s1'' [] JNull JNull) =
   Inr (conv ''s1'' [built ''user'' ''hi''] JNull JNull)"
  by (simp add: process_message_def finish_message_def str_join_def dict_get_def
      dict_get_default_def Let_def)

section \<open>Todo states\<close>

lemma dict_has_dict_set: "dict_has (dict_set k v d) k"
  by (simp add: dict_has_def map_of_dict_set)

text \<open>
  C8. On a \<^verbatim>\<open>todo_state\<close> record: when a message has been appended and the last one has no
  \<^verbatim>\<open>todos\<close> key, the record's \<^verbatim>\<open>todos\<close> value is stored under that key of the last message
  and nothing else changes; when the last message has the key already, or when no message
  has been appended, the state is unchanged. So a second \<^verbatim>\<open>todo_state\<close> record right after
  the first never changes anything.
\<close>

theorem todo_state_attaches_once:
  assumes "dict_get obj ''type'' = JStr ''todo_state''"
  shows "(messages c \<noteq> [] \<and> \<not> dict_has (last (messages c)) ''todos'' \<longrightarrow>
            process_line (Decoded (JObj obj)) c =
              Inr (c\<lparr>messages := butlast (messages c) @
                     [dict_set ''todos'' (dict_get obj ''todos'') (last (messages c))]\<rparr>) \<and>
            map_of (dict_set ''todos'' (dict_get obj ''todos'') (last (messages c))) =
              (map_of (last (messages c)))(''todos'' \<mapsto> dict_get obj ''todos'')) \<and>
         (messages c \<noteq> [] \<and> dict_has (last (messages c)) ''todos'' \<longrightarrow>
            process_line (Decoded (JObj obj)) c = Inr c) \<and>
         (messages c = [] \<longrightarrow> process_line (Decoded (JObj obj)) c = Inr c) \<and>
         (dict_get obj2 ''type'' = JStr ''todo_state'' \<longrightarrow>
            scan_lines [Decoded (JObj obj), Decoded (JObj obj2)] c =
              scan_lines [Decoded (JObj obj)] c)"
proof -
  have line: "process_line (Decoded (JObj obj)) c' = Inr (process_todo_state obj c')" for c'
    using assms by simp
  have again: "process_todo_state obj2 (process_todo_state obj c) = process_todo_state obj c"
    by (simp add: process_todo_state_def dict_has_dict_set)
  have "dict_get obj2 ''type'' = JStr ''todo_state'' \<longrightarrow>
            scan_lines [Decoded (JObj obj), Decoded (JObj obj2)] c =
              scan_lines [Decoded (JObj obj)] c"
    using assms again by simp
  then show ?thesis
    unfolding line by (simp add: process_todo_state_def map_of_dict_set)
qed

theorem todo_state_attaches_once_witness:
  "process_line (Decoded (JObj (todo_state_record (JInt 3))))
     (conv ''s1'' [built ''user'' ''a'', built ''assistant'' ''b''] JNull JNull) =
   Inr (conv ''s1'' [built ''user'' ''a'', built ''assistant'' ''b'' @ [(''todos'', JInt 3)]]
          JNull JNull) \<and>
   process_line (Decoded (JObj (todo_state_record (JInt 4))))
     (conv ''s1'' [built ''user'' ''a'', built ''assistant'' ''b'' @ [(''todos'', JInt 3)]]
        JNull JNull) =
   Inr (conv ''s1'' [built ''user'' ''a'', built ''assistant'' ''b'' @ [(''todos'', JInt 3)]]
          JNull JNull) \<and>
   process_line (Decoded (JObj (todo_state_record (JInt 3)))) (conv ''s1'' [] JNull JNull) =
   Inr (conv ''s1'' [] JNull JNull) \<and>
   scan_lines [Decoded (JObj (todo_state_record (JInt 3))),
               Decoded (JObj (todo_state_record (JInt 4)))]
     (conv ''s1'' [built ''user'' ''a'', built ''assistant'' ''b''] JNull JNull) =
   Inr (conv ''s1'' [built ''user'' ''a'', built ''assistant'' ''b'' @ [(''todos'', JInt 3)]]
          JNull JNull)"
proof -
  let ?c1 = "conv ''s1'' [built ''user'' ''a'', built ''assistant'' ''b''] JNull JNull"
  let ?c2 = "conv ''s1'' [built ''user'' ''a'', built ''assistant'' ''b'' @ [(''todos'', JInt 3)]]
               JNull JNull"
  let ?c0 = "conv ''s1'' [] JNull JNull"
  have first: "process_line (Decoded (JObj (todo_state_record (JInt 3)))) ?c1 = Inr ?c2"
    using todo_state_attaches_once [of "todo_state_record (JInt 3)" ?c1 "[]"]
    by (simp add: dict_get_def dict_has_def)
  have second: "process_line (Decoded (JObj (todo_state_record (JInt 4)))) ?c2 = Inr ?c2"
    using todo_state_attaches_once [of "todo_state_record (JInt 4)" ?c2 "[]"]
    by (simp add: dict_get_def dict_has_def)
  have none: "process_line (Decoded (JObj (todo_state_record (JInt 3)))) ?c0 = Inr ?c0"
    using todo_state_attaches_once [of "todo_state_record (JInt 3)" ?c0 "[]"]
    by (simp add: dict_get_def dict_has_def)
  have "scan_lines [Decoded (JObj (todo_state_record (JInt 3))),
                    Decoded (JObj (todo_state_record (JInt 4)))] ?c1 =
        scan_lines [Decoded (JObj (todo_state_record (JInt 3)))] ?c1"
    using todo_state_attaches_once
      [of "todo_state_record (JInt 3)" ?c1 "todo_state_record (JInt 4)"]
    by (simp add: dict_get_def)
  then have twice: "scan_lines [Decoded (JObj (todo_state_record (JInt 3))),
                    Decoded (JObj (todo_state_record (JInt 4)))] ?c1 = Inr ?c2"
    using first by simp
  show ?thesis
    using first second none twice by blast
qed

section \<open>What one line does to the state\<close>

lemma process_message_cases:
  assumes "process_message obj c = Inr c'"
  shows "\<exists>message. dict_get_default obj ''message'' (JObj []) = JObj message \<and>
           (if dict_get message ''role'' = JStr ''user'' \<or>
               dict_get message ''role'' = JStr ''assistant''
            then \<exists>m. c' = c\<lparr>messages := messages c @ [m]\<rparr> \<and> built_message m
            else c' = c)"
proof (cases "dict_get_default obj ''message'' (JObj [])")
  case (JObj message)
  show ?thesis
  proof (cases "dict_get message ''role'' = JStr ''user'' \<or>
                dict_get message ''role'' = JStr ''assistant''")
    case False
    then have "process_message obj c = Inr c"
      using JObj by (simp add: process_message_def)
    then show ?thesis
      using assms JObj False by simp
  next
    case True
    let ?items = "content_parts_of (dict_get_default message ''content'' (JArr []))"
    show ?thesis
    proof (cases "strings_of (map text_value (filter (is_block_of ''text'') ?items))")
      case None
      then have "process_message obj c = Inl TypeError"
        using process_message_Inl [OF JObj True refl] by simp
      then show ?thesis
        using assms by simp
    next
      case (Some ss)
      obtain m where "process_message obj c = Inr (c\<lparr>messages := messages c @ [m]\<rparr>)"
        and "built_message m"
        using process_message_Inr [OF JObj True refl Some, of c] by blast
      then show ?thesis
        using assms JObj True by auto
    qed
  qed
qed (use assms in \<open>simp_all add: process_message_def\<close>)

lemma built_message_todos: "built_message (dict_set ''todos'' v m) = built_message m"
  by (simp add: built_message_def dict_has_def nonempty_field_def map_of_dict_set)

lemma process_todo_state_length:
  "length (messages (process_todo_state obj c)) = length (messages c)"
  by (simp add: process_todo_state_def)

lemma process_todo_state_built:
  assumes "list_all built_message (messages c)"
  shows "list_all built_message (messages (process_todo_state obj c))"
proof (cases "messages c \<noteq> [] \<and> \<not> dict_has (last (messages c)) ''todos''")
  case False
  then show ?thesis
    using assms by (auto simp add: process_todo_state_def)
next
  case True
  then have split: "messages c = butlast (messages c) @ [last (messages c)]"
    by simp
  have "list_all built_message (butlast (messages c) @ [last (messages c)])"
    using assms split by simp
  then have "list_all built_message
      (butlast (messages c) @ [dict_set ''todos'' (dict_get obj ''todos'') (last (messages c))])"
    by (simp add: built_message_todos)
  then show ?thesis
    using True by (simp add: process_todo_state_def)
qed

lemma process_todo_state_session:
  "session_title (process_todo_state obj c) = session_title c \<and>
   session_owner (process_todo_state obj c) = session_owner c"
  by (simp add: process_todo_state_def)

lemma process_line_length:
  assumes "process_line l c = Inr c'"
  shows "length (messages c') = length (messages c) + (if qualifying l then 1 else 0)"
proof (cases l)
  case (Decoded v)
  show ?thesis
  proof (cases v)
    case (JObj obj)
    show ?thesis
    proof (cases "dict_get obj ''type'' = JStr ''message''")
      case True
      then have "process_message obj c = Inr c'"
        using assms Decoded JObj by simp
      then obtain message where message: "dict_get_default obj ''message'' (JObj []) = JObj message"
        and result: "if dict_get message ''role'' = JStr ''user'' \<or>
               dict_get message ''role'' = JStr ''assistant''
            then \<exists>m. c' = c\<lparr>messages := messages c @ [m]\<rparr> \<and> built_message m
            else c' = c"
        using process_message_cases [of obj c c'] by blast
      show ?thesis
      proof (cases "dict_get message ''role'' = JStr ''user'' \<or>
               dict_get message ''role'' = JStr ''assistant''")
        case role: True
        then obtain m where "c' = c\<lparr>messages := messages c @ [m]\<rparr>"
          using result by auto
        then show ?thesis
          using role True message Decoded JObj by simp
      next
        case role: False
        then have "c' = c"
          using result by simp
        then show ?thesis
          using role True message Decoded JObj by simp
      qed
    next
      case False
      then show ?thesis
        using assms Decoded JObj
        by (auto simp add: Let_def process_todo_state_length split: if_splits)
    qed
  qed (use assms Decoded in simp_all)
qed (use assms in auto)

lemma process_line_built:
  assumes "process_line l c = Inr c'"
    and "list_all built_message (messages c)"
  shows "list_all built_message (messages c')"
proof (cases l)
  case (Decoded v)
  show ?thesis
  proof (cases v)
    case (JObj obj)
    show ?thesis
    proof (cases "dict_get obj ''type'' = JStr ''message''")
      case True
      then have "process_message obj c = Inr c'"
        using assms(1) Decoded JObj by simp
      then show ?thesis
        using process_message_cases [of obj c c'] assms(2)
        by (auto split: if_splits)
    next
      case False
      then show ?thesis
        using assms Decoded JObj
        by (auto simp add: Let_def process_todo_state_built split: if_splits)
    qed
  qed (use assms Decoded in simp_all)
qed (use assms in auto)

lemma process_line_session:
  assumes "process_line l c = Inr c'"
  shows "session_title c' =
           (if session_starts [l] = [] then session_title c
            else dict_get_default (last (session_starts [l])) ''title'' (JStr ''New Session'')) \<and>
         session_owner c' =
           (if session_starts [l] = [] then session_owner c
            else dict_get (last (session_starts [l])) ''owner'')"
proof (cases l)
  case (Decoded v)
  show ?thesis
  proof (cases v)
    case (JObj obj)
    show ?thesis
    proof (cases "dict_get obj ''type'' = JStr ''message''")
      case True
      then have "process_message obj c = Inr c'"
        using assms(1) Decoded JObj by simp
      then show ?thesis
        using process_message_cases [of obj c c'] True Decoded JObj
        by (auto split: if_splits)
    next
      case False
      then show ?thesis
        using assms Decoded JObj
        by (auto simp add: Let_def process_todo_state_session split: if_splits)
    qed
  qed (use assms Decoded in simp_all)
qed (use assms in auto)

lemma scan_lines_length:
  assumes "scan_lines ls c = Inr c'"
  shows "length (messages c') = length (messages c) + length (filter qualifying ls)"
  using assms
proof (induction ls arbitrary: c)
  case Nil
  then show ?case by simp
next
  case (Cons l ls)
  then obtain c1 where step: "process_line l c = Inr c1" and rest: "scan_lines ls c1 = Inr c'"
    by (auto split: sum.splits)
  show ?case
    using Cons.IH [OF rest] process_line_length [OF step] by simp
qed

lemma scan_lines_built:
  assumes "scan_lines ls c = Inr c'"
    and "list_all built_message (messages c)"
  shows "list_all built_message (messages c')"
  using assms
proof (induction ls arbitrary: c)
  case Nil
  then show ?case by simp
next
  case (Cons l ls)
  then obtain c1 where step: "process_line l c = Inr c1" and rest: "scan_lines ls c1 = Inr c'"
    by (auto split: sum.splits)
  show ?case
    using Cons.IH [OF rest] process_line_built [OF step] Cons.prems(2) by simp
qed

lemma session_starts_append:
  "session_starts (xs @ ys) = session_starts xs @ session_starts ys"
  by (induction xs rule: session_starts.induct) simp_all

lemma scan_lines_session:
  assumes "scan_lines ls c = Inr c'"
  shows "session_title c' =
           (if session_starts ls = [] then session_title c
            else dict_get_default (last (session_starts ls)) ''title'' (JStr ''New Session'')) \<and>
         session_owner c' =
           (if session_starts ls = [] then session_owner c
            else dict_get (last (session_starts ls)) ''owner'')"
  using assms
proof (induction ls arbitrary: c)
  case Nil
  then show ?case by simp
next
  case (Cons l ls)
  then obtain c1 where step: "process_line l c = Inr c1" and rest: "scan_lines ls c1 = Inr c'"
    by (auto split: sum.splits)
  have starts: "session_starts (l # ls) = session_starts [l] @ session_starts ls"
    using session_starts_append [of "[l]" ls] by simp
  show ?case
    using Cons.IH [OF rest] process_line_session [OF step] unfolding starts by simp
qed

section \<open>Which files give a conversation\<close>

lemma scan_file_length:
  assumes "scan_file f = Inr c"
  shows "length (messages c) = length (filter qualifying (lines_of f))"
proof (cases "contents f")
  case (Inl e)
  then show ?thesis
    using assms by (simp add: scan_file_def)
next
  case (Inr ls)
  then have "scan_lines ls (start f) = Inr c"
    using assms by (simp add: scan_file_def)
  then show ?thesis
    using scan_lines_length [of ls "start f" c] Inr by (simp add: start_def lines_of_def)
qed

text \<open>
  C1. The extraction of a single file: when the scan raises, it returns no conversation
  (or raises what the \<^verbatim>\<open>print\<close> of line 140 raises); when the scan returns, it returns one
  conversation, the state at the end of the scan, if at least one line of the file is a
  qualifying record (a \<^verbatim>\<open>message\<close> record with role \<^verbatim>\<open>user\<close> or \<^verbatim>\<open>assistant\<close>), and none
  otherwise. The \<^verbatim>\<open>messages\<close> of that state has one entry per qualifying record. In every
  extraction of a directory that returns, what the file gives stands in the output between
  what the files before it give and what the files after it give.
\<close>

theorem conversation_iff_qualifying:
  "extract_droid_sessions (Some [f]) =
     (case scan_file f of
        Inl e \<Rightarrow> (case print_raises f of Some e' \<Rightarrow> Inl e' | None \<Rightarrow> Inr [])
      | Inr c \<Rightarrow> Inr (if list_ex qualifying (lines_of f) then [c] else [])) \<and>
   (\<forall>c. scan_file f = Inr c \<longrightarrow>
      length (messages c) = length (filter qualifying (lines_of f))) \<and>
   (\<forall>out. extract_droid_sessions (Some (fs @ f # gs)) = Inr out \<longrightarrow>
      (\<exists>before after.
         extract_droid_sessions (Some fs) = Inr before \<and>
         extract_droid_sessions (Some gs) = Inr after \<and>
         out = before @
               (case scan_file f of
                  Inl e \<Rightarrow> []
                | Inr c \<Rightarrow> if list_ex qualifying (lines_of f) then [c] else []) @
               after))"
proof -
  have some: "messages c \<noteq> [] \<longleftrightarrow> list_ex qualifying (lines_of f)"
    if "scan_file f = Inr c" for c
  proof -
    have "messages c \<noteq> [] \<longleftrightarrow> filter qualifying (lines_of f) \<noteq> []"
      using scan_file_length [OF that] by (metis length_0_conv)
    then show ?thesis
      by (simp add: filter_empty_conv list_ex_iff)
  qed
  have single: "extract_droid_sessions (Some [f]) =
     (case scan_file f of
        Inl e \<Rightarrow> (case print_raises f of Some e' \<Rightarrow> Inl e' | None \<Rightarrow> Inr [])
      | Inr c \<Rightarrow> Inr (if list_ex qualifying (lines_of f) then [c] else []))"
    using some by (simp add: extract_droid_sessions_single split: sum.splits)
  have gives: "conversations_of f =
     (case scan_file f of
        Inl e \<Rightarrow> []
      | Inr c \<Rightarrow> if list_ex qualifying (lines_of f) then [c] else [])"
    using some by (simp add: conversations_of_def split: sum.splits)
  have place: "\<exists>before after.
         extract_droid_sessions (Some fs) = Inr before \<and>
         extract_droid_sessions (Some gs) = Inr after \<and>
         out = before @
               (case scan_file f of
                  Inl e \<Rightarrow> []
                | Inr c \<Rightarrow> if list_ex qualifying (lines_of f) then [c] else []) @
               after"
    if "extract_droid_sessions (Some (fs @ f # gs)) = Inr out" for out
    using extract_droid_sessions_split [OF that] gives by auto
  show ?thesis
    using single place scan_file_length by blast
qed

theorem conversation_iff_qualifying_witness:
  "length (filter qualifying
     [Decoded (JObj (session_start_record ''T'' ''alice'')),
      Decoded (JObj (message_record ''user'' (JArr [text_block ''a'']))),
      Blank,
      Decoded (JObj (message_record ''system'' (JArr [text_block ''x'']))),
      Decoded (JObj (message_record ''assistant'' (JArr [text_block ''b''])))]) = 2 \<and>
   extract_droid_sessions (Some [session ''s1'' (Inr
     [Decoded (JObj (session_start_record ''T'' ''alice'')),
      Decoded (JObj (message_record ''user'' (JArr [text_block ''a'']))),
      Blank,
      Decoded (JObj (message_record ''system'' (JArr [text_block ''x'']))),
      Decoded (JObj (message_record ''assistant'' (JArr [text_block ''b''])))])]) =
     Inr [conv ''s1'' [built ''user'' ''a'', built ''assistant'' ''b''] (JStr ''T'')
            (JStr ''alice'')] \<and>
   extract_droid_sessions (Some [session ''s0'' (Inr
     [Decoded (JObj (session_start_record ''T'' ''alice'')),
      Decoded (JObj (message_record ''system'' (JArr [text_block ''x''])))])]) = Inr [] \<and>
   (\<exists>c. scan_file (session ''s1'' (Inr
     [Decoded (JObj (session_start_record ''T'' ''alice'')),
      Decoded (JObj (message_record ''user'' (JArr [text_block ''a'']))),
      Blank,
      Decoded (JObj (message_record ''system'' (JArr [text_block ''x'']))),
      Decoded (JObj (message_record ''assistant'' (JArr [text_block ''b''])))])) = Inr c \<and>
     length (messages c) = 2) \<and>
   (\<exists>out. extract_droid_sessions (Some
       [session ''s0'' (Inr
          [Decoded (JObj (session_start_record ''T'' ''alice'')),
           Decoded (JObj (message_record ''system'' (JArr [text_block ''x''])))]),
        session ''s1'' (Inr
          [Decoded (JObj (session_start_record ''T'' ''alice'')),
           Decoded (JObj (message_record ''user'' (JArr [text_block ''a'']))),
           Blank,
           Decoded (JObj (message_record ''system'' (JArr [text_block ''x'']))),
           Decoded (JObj (message_record ''assistant'' (JArr [text_block ''b''])))])]) =
       Inr out \<and>
     out = [conv ''s1'' [built ''user'' ''a'', built ''assistant'' ''b''] (JStr ''T'')
              (JStr ''alice'')])"
proof -
  let ?ls1 = "[Decoded (JObj (session_start_record ''T'' ''alice'')),
      Decoded (JObj (message_record ''user'' (JArr [text_block ''a'']))),
      Blank,
      Decoded (JObj (message_record ''system'' (JArr [text_block ''x'']))),
      Decoded (JObj (message_record ''assistant'' (JArr [text_block ''b''])))]"
  let ?ls0 = "[Decoded (JObj (session_start_record ''T'' ''alice'')),
      Decoded (JObj (message_record ''system'' (JArr [text_block ''x''])))]"
  let ?c1 = "conv ''s1'' [built ''user'' ''a'', built ''assistant'' ''b''] (JStr ''T'') (JStr ''alice'')"
  let ?c0 = "conv ''s0'' [] (JStr ''T'') (JStr ''alice'')"
  let ?f1 = "session ''s1'' (Inr ?ls1)"
  let ?f0 = "session ''s0'' (Inr ?ls0)"
  have count1: "length (filter qualifying ?ls1) = 2"
    by (simp add: dict_get_def dict_get_default_def)
  have q1: "list_ex qualifying (lines_of ?f1)"
    by (simp add: lines_of_def dict_get_def dict_get_default_def)
  have q0: "\<not> list_ex qualifying (lines_of ?f0)"
    by (simp add: lines_of_def dict_get_def dict_get_default_def)
  have scan1: "scan_file ?f1 = Inr ?c1"
    by (simp add: scan_file_def start_def process_message_def finish_message_def
        str_join_def dict_get_def dict_get_default_def Let_def)
  have scan0: "scan_file ?f0 = Inr ?c0"
    by (simp add: scan_file_def start_def process_message_def finish_message_def
        str_join_def dict_get_def dict_get_default_def Let_def)
  have out1: "extract_droid_sessions (Some [?f1]) = Inr [?c1]"
    using conversation_iff_qualifying [where f = ?f1 and fs = "[]" and gs = "[]"] q1 scan1
    by simp
  have out0: "extract_droid_sessions (Some [?f0]) = Inr []"
    using conversation_iff_qualifying [where f = ?f0 and fs = "[]" and gs = "[]"] q0 scan0
    by simp
  have "length (messages ?c1) = length (filter qualifying (lines_of ?f1))"
    using conversation_iff_qualifying [where f = ?f1 and fs = "[]" and gs = "[]"] scan1
    by blast
  then have len: "length (messages ?c1) = 2"
    using count1 by (simp add: lines_of_def)
  obtain out where whole: "extract_droid_sessions (Some ([?f0] @ ?f1 # [])) = Inr out"
    using scan0 scan1 by (simp add: extract_droid_sessions_def)
  then obtain before after where "extract_droid_sessions (Some [?f0]) = Inr before"
    and "extract_droid_sessions (Some []) = Inr after"
    and "out = before @
           (case scan_file ?f1 of
              Inl e \<Rightarrow> []
            | Inr c \<Rightarrow> if list_ex qualifying (lines_of ?f1) then [c] else []) @ after"
    using conversation_iff_qualifying [where f = ?f1 and fs = "[?f0]" and gs = "[]"]
    by blast
  then have "out = [?c1]"
    using out0 q1 scan1 by (simp add: extract_droid_sessions_def)
  then have dir: "\<exists>out. extract_droid_sessions (Some [?f0, ?f1]) = Inr out \<and> out = [?c1]"
    using whole by simp
  show ?thesis
    using count1 out1 out0 scan1 len dir by blast
qed

theorem qualifying_record_lost_counterexample:
  "list_ex qualifying
     [Decoded (JObj (message_record ''user'' (JArr [text_block ''a'']))), Decoded (JInt 42)] \<and>
   extract_droid_sessions (Some [session ''s1'' (Inr
     [Decoded (JObj (message_record ''user'' (JArr [text_block ''a'']))),
      Decoded (JInt 42)])]) = Inr []"
  by (simp add: extract_droid_sessions_single scan_file_def start_def process_message_def
      finish_message_def str_join_def dict_get_def dict_get_default_def Let_def)

section \<open>Session title and owner\<close>

text \<open>
  C2. Every \<^verbatim>\<open>session_start\<close> record overwrites \<^verbatim>\<open>session_title\<close> and \<^verbatim>\<open>session_owner\<close>
  (lines 54 and 55), so after a scan that raises no exception both come from the last
  \<^verbatim>\<open>session_start\<close> record of the file: the title is its \<^verbatim>\<open>title\<close>, or \<^verbatim>\<open>'New Session'\<close> when it
  has none, and the owner is its \<^verbatim>\<open>owner\<close>, or \<^verbatim>\<open>None\<close>.
\<close>

theorem last_session_start_wins:
  assumes "scan_file f = Inr c"
    and "session_starts (lines_of f) \<noteq> []"
  shows "session_title c =
           dict_get_default (last (session_starts (lines_of f))) ''title'' (JStr ''New Session'') \<and>
         session_owner c = dict_get (last (session_starts (lines_of f))) ''owner''"
proof (cases "contents f")
  case (Inl e)
  then show ?thesis
    using assms(1) by (simp add: scan_file_def)
next
  case (Inr ls)
  then have "scan_lines ls (start f) = Inr c"
    using assms(1) by (simp add: scan_file_def)
  then show ?thesis
    using scan_lines_session [of ls "start f" c] assms(2) Inr by (simp add: lines_of_def)
qed

theorem last_session_start_wins_witness:
  "session_starts (lines_of (session ''s1'' (Inr
     [Decoded (JObj (session_start_record ''A'' ''alice'')),
      Decoded (JObj (message_record ''user'' (JArr [text_block ''a'']))),
      Decoded (JObj [(''type'', JStr ''session_start''), (''owner'', JStr ''bob'')])]))) =
     [session_start_record ''A'' ''alice'',
      [(''type'', JStr ''session_start''), (''owner'', JStr ''bob'')]] \<and>
   (\<exists>c. scan_file (session ''s1'' (Inr
     [Decoded (JObj (session_start_record ''A'' ''alice'')),
      Decoded (JObj (message_record ''user'' (JArr [text_block ''a'']))),
      Decoded (JObj [(''type'', JStr ''session_start''), (''owner'', JStr ''bob'')])])) = Inr c \<and>
     session_title c = JStr ''New Session'' \<and> session_owner c = JStr ''bob'')"
proof -
  let ?ls = "[Decoded (JObj (session_start_record ''A'' ''alice'')),
      Decoded (JObj (message_record ''user'' (JArr [text_block ''a'']))),
      Decoded (JObj [(''type'', JStr ''session_start''), (''owner'', JStr ''bob'')])]"
  let ?c = "conv ''s1'' [built ''user'' ''a''] (JStr ''New Session'') (JStr ''bob'')"
  have starts: "session_starts (lines_of (session ''s1'' (Inr ?ls))) =
     [session_start_record ''A'' ''alice'',
      [(''type'', JStr ''session_start''), (''owner'', JStr ''bob'')]]"
    by (simp add: lines_of_def dict_get_def)
  have scan: "scan_file (session ''s1'' (Inr ?ls)) = Inr ?c"
    by (simp add: scan_file_def start_def process_message_def finish_message_def
        str_join_def dict_get_def dict_get_default_def Let_def)
  have "session_title ?c = JStr ''New Session'' \<and> session_owner ?c = JStr ''bob''"
    using last_session_start_wins [OF scan] starts
    by (simp add: dict_get_def dict_get_default_def)
  then show ?thesis
    using starts scan by blast
qed

theorem second_session_start_counterexample:
  "hd (session_starts
     [Decoded (JObj (session_start_record ''A'' ''alice'')),
      Decoded (JObj (session_start_record ''B'' ''bob'')),
      Decoded (JObj (message_record ''user'' (JArr [text_block ''a''])))]) =
     session_start_record ''A'' ''alice'' \<and>
   extract_droid_sessions (Some [session ''s1'' (Inr
     [Decoded (JObj (session_start_record ''A'' ''alice'')),
      Decoded (JObj (session_start_record ''B'' ''bob'')),
      Decoded (JObj (message_record ''user'' (JArr [text_block ''a''])))])]) =
   Inr [conv ''s1'' [built ''user'' ''a''] (JStr ''B'') (JStr ''bob'')]"
  by (simp add: extract_droid_sessions_single scan_file_def start_def process_message_def
      finish_message_def str_join_def dict_get_def dict_get_default_def Let_def)

section \<open>How far a failure reaches\<close>

lemma scan_file_stops:
  assumes "scan_lines pre (start f) = Inr c"
    and "process_line l c = Inl e"
  shows "scan_file (f\<lparr>contents := Inr (pre @ l # post)\<rparr>) = Inl e"
  using assms by (simp add: scan_file_def start_def scan_lines_append)

text \<open>
  The exceptions of a line: a decoded value that is not a dictionary has no \<^verbatim>\<open>get\<close>, nor
  has a \<^verbatim>\<open>message\<close> value that is not a dictionary, and a text value that is not a string
  cannot be joined.
\<close>

lemma process_line_not_dict:
  assumes "\<And>obj. v \<noteq> JObj obj"
  shows "process_line (Decoded v) c = Inl AttributeError"
  using assms by (cases v) auto

lemma process_line_message_not_dict:
  assumes "dict_get obj ''type'' = JStr ''message''"
    and "\<And>message. dict_get_default obj ''message'' (JObj []) \<noteq> JObj message"
  shows "process_line (Decoded (JObj obj)) c = Inl AttributeError"
  using assms
  by (cases "dict_get_default obj ''message'' (JObj [])") (auto simp add: process_message_def)

lemma process_line_text_not_string:
  assumes "dict_get obj ''type'' = JStr ''message''"
    and "dict_get_default obj ''message'' (JObj []) = JObj message"
    and "dict_get message ''role'' = JStr ''user'' \<or>
         dict_get message ''role'' = JStr ''assistant''"
    and "strings_of (map text_value (filter (is_block_of ''text'')
           (content_parts_of (dict_get_default message ''content'' (JArr []))))) = None"
  shows "process_line (Decoded (JObj obj)) c = Inl TypeError"
  using assms(1) process_message_Inl [OF assms(2) assms(3) refl assms(4)] by simp

text \<open>
  C3. When no file ends the extraction (the scan of the file returns, or the report of its
  failure is printed), the extraction returns, and whenever it returns its output is the
  concatenation of what each file gives alone: no file changes what another file gives,
  and a file whose scan raises an exception gives nothing. Inside a file only a
  \<^verbatim>\<open>JSONDecodeError\<close> is contained to its line: the file gives what it would give without
  the malformed line, so the valid records around it are kept. Any other exception raised
  on a line (another exception of \<^verbatim>\<open>json.loads\<close>, a decoded value that is not a dictionary,
  a \<^verbatim>\<open>message\<close> value that is not a dictionary, a text value that is not a string, a failed
  read) ends the scan of the file with that exception, and the file gives nothing.
\<close>

theorem failures_contained:
  "(list_all (\<lambda>g. aborts g = None) fs \<longrightarrow>
      extract_droid_sessions (Some fs) = Inr (concat (map conversations_of fs))) \<and>
   (\<forall>out. extract_droid_sessions (Some fs) = Inr out \<longrightarrow>
      out = concat (map conversations_of fs)) \<and>
   conversations_of (f\<lparr>contents := Inr (pre @ Malformed # post)\<rparr>) =
     conversations_of (f\<lparr>contents := Inr (pre @ post)\<rparr>) \<and>
   extract_droid_sessions (Some [f\<lparr>contents := Inr (pre @ Malformed # post)\<rparr>]) =
     extract_droid_sessions (Some [f\<lparr>contents := Inr (pre @ post)\<rparr>]) \<and>
   (scan_file f = Inl e \<longrightarrow> conversations_of f = [] \<and> aborts f = print_raises f) \<and>
   (scan_lines pre (start f) = Inr c \<and> process_line l c = Inl e \<longrightarrow>
      scan_file (f\<lparr>contents := Inr (pre @ l # post)\<rparr>) = Inl e \<and>
      conversations_of (f\<lparr>contents := Inr (pre @ l # post)\<rparr>) = [])"
proof -
  have scan: "scan_file (f\<lparr>contents := Inr (pre @ Malformed # post)\<rparr>) =
        scan_file (f\<lparr>contents := Inr (pre @ post)\<rparr>)"
    by (simp add: scan_lines_malformed scan_file_def start_def)
  then have gives:
    "conversations_of (f\<lparr>contents := Inr (pre @ Malformed # post)\<rparr>) =
     conversations_of (f\<lparr>contents := Inr (pre @ post)\<rparr>)"
    by (simp add: conversations_of_def)
  have malformed:
    "extract_droid_sessions (Some [f\<lparr>contents := Inr (pre @ Malformed # post)\<rparr>]) =
     extract_droid_sessions (Some [f\<lparr>contents := Inr (pre @ post)\<rparr>])"
    using scan by (simp add: extract_droid_sessions_single split: sum.splits)
  have failing: "conversations_of g = [] \<and> aborts g = print_raises g"
    if "scan_file g = Inl e" for g
    using that by (simp add: conversations_of_def aborts_def)
  have "scan_file (f\<lparr>contents := Inr (pre @ l # post)\<rparr>) = Inl e \<and>
      conversations_of (f\<lparr>contents := Inr (pre @ l # post)\<rparr>) = []"
    if "scan_lines pre (start f) = Inr c" and "process_line l c = Inl e"
    using scan_file_stops [OF that] failing by simp
  then show ?thesis
    using extract_droid_sessions_Inr [of fs] gives malformed failing by blast
qed

theorem failures_contained_witness:
  "process_line (Decoded (JObj [(''type'', JStr ''message''), (''message'', JNull)]))
     (conv ''s1'' [built ''user'' ''a''] JNull JNull) = Inl AttributeError \<and>
   scan_file (session ''s1'' (Inr
     [Decoded (JObj (message_record ''user'' (JArr [text_block ''a'']))),
      Decoded (JObj [(''type'', JStr ''message''), (''message'', JNull)]),
      Decoded (JObj (message_record ''user'' (JArr [text_block ''b''])))])) = Inl AttributeError \<and>
   list_all (\<lambda>g. aborts g = None)
     [session ''s1'' (Inr
        [Decoded (JObj (message_record ''user'' (JArr [text_block ''a'']))),
         Decoded (JObj [(''type'', JStr ''message''), (''message'', JNull)]),
         Decoded (JObj (message_record ''user'' (JArr [text_block ''b''])))]),
      session ''s2'' (Inr
        [Decoded (JObj (message_record ''user'' (JArr [text_block ''a'']))),
         Malformed,
         Decoded (JObj (message_record ''user'' (JArr [text_block ''b''])))]),
      session ''s3'' (Inl OSError)] \<and>
   extract_droid_sessions (Some
     [session ''s1'' (Inr
        [Decoded (JObj (message_record ''user'' (JArr [text_block ''a'']))),
         Decoded (JObj [(''type'', JStr ''message''), (''message'', JNull)]),
         Decoded (JObj (message_record ''user'' (JArr [text_block ''b''])))]),
      session ''s2'' (Inr
        [Decoded (JObj (message_record ''user'' (JArr [text_block ''a'']))),
         Malformed,
         Decoded (JObj (message_record ''user'' (JArr [text_block ''b''])))]),
      session ''s3'' (Inl OSError)]) =
   Inr [conv ''s2'' [built ''user'' ''a'', built ''user'' ''b''] JNull JNull]"
proof -
  let ?a = "Decoded (JObj (message_record ''user'' (JArr [text_block ''a''])))"
  let ?b = "Decoded (JObj (message_record ''user'' (JArr [text_block ''b''])))"
  let ?bad = "Decoded (JObj [(''type'', JStr ''message''), (''message'', JNull)])"
  let ?c = "conv ''s1'' [built ''user'' ''a''] JNull JNull"
  let ?c2 = "conv ''s2'' [built ''user'' ''a'', built ''user'' ''b''] JNull JNull"
  let ?f1 = "session ''s1'' (Inr [?a, ?bad, ?b])"
  let ?f2 = "session ''s2'' (Inr [?a, Malformed, ?b])"
  let ?f3 = "session ''s3'' (Inl OSError)"
  note contained = failures_contained [where e = AttributeError and c = ?c and l = ?bad
      and pre = "[?a]" and post = "[?b]"]
  have pre: "scan_lines [?a] (start ?f1) = Inr ?c"
    by (simp add: start_def process_message_def finish_message_def str_join_def
        dict_get_def dict_get_default_def Let_def)
  have bad: "process_line ?bad ?c = Inl AttributeError"
    by (simp add: process_message_def dict_get_def dict_get_default_def)
  have good: "conversations_of (session ''s2'' (Inr [?a, ?b])) = [?c2]"
    by (simp add: conversations_of_def scan_file_def start_def process_message_def
        finish_message_def str_join_def dict_get_def dict_get_default_def Let_def)
  have stop: "scan_file ?f1 = Inl AttributeError \<and> conversations_of ?f1 = []"
    using contained [where f = ?f1 and fs = "[]"] pre bad by simp
  have skip: "conversations_of ?f2 = [?c2]"
    using contained [where f = ?f2 and fs = "[]"] good by simp
  have closed: "scan_file ?f3 = Inl OSError"
    by (simp add: scan_file_def)
  have third: "conversations_of ?f3 = [] \<and> aborts ?f3 = print_raises ?f3"
    using failures_contained [where f = ?f3 and e = OSError and fs = "[]" and pre = "[]"
        and post = "[]" and c = ?c and l = ?bad] closed
    by blast
  have first: "aborts ?f1 = None"
    using failures_contained [where f = ?f1 and e = AttributeError and fs = "[]" and pre = "[]"
        and post = "[]" and c = ?c and l = ?bad] stop
    by simp
  have second: "aborts ?f2 = None"
    using good by (simp add: aborts_def scan_file_def start_def process_message_def
        finish_message_def str_join_def dict_get_def dict_get_default_def Let_def)
  have none: "list_all (\<lambda>g. aborts g = None) [?f1, ?f2, ?f3]"
    using first second third by simp
  then have "extract_droid_sessions (Some [?f1, ?f2, ?f3]) =
      Inr (concat (map conversations_of [?f1, ?f2, ?f3]))"
    using contained [where f = ?f1 and fs = "[?f1, ?f2, ?f3]"] by blast
  then have "extract_droid_sessions (Some [?f1, ?f2, ?f3]) = Inr [?c2]"
    using stop skip third by simp
  then show ?thesis
    using bad stop none by blast
qed

theorem corrupt_record_counterexample:
  "extract_droid_sessions (Some [session ''s1'' (Inr
     [Decoded (JObj [(''type'', JStr ''message''), (''message'', JNull)]),
      Decoded (JObj (message_record ''user'' (JArr [text_block ''a''])))])]) = Inr [] \<and>
   extract_droid_sessions (Some [session ''s1'' (Inr
     [Decoded (JObj (message_record ''user'' (JArr [text_block ''a''])))])]) =
     Inr [conv ''s1'' [built ''user'' ''a''] JNull JNull]"
  by (simp add: extract_droid_sessions_single scan_file_def start_def process_message_def
      finish_message_def str_join_def dict_get_def dict_get_default_def Let_def)

section \<open>The summary counters\<close>

lemma scan_file_built:
  assumes "scan_file f = Inr c"
  shows "list_all built_message (messages c)"
proof (cases "contents f")
  case (Inl e)
  then show ?thesis
    using assms by (simp add: scan_file_def)
next
  case (Inr ls)
  then have "scan_lines ls (start f) = Inr c"
    using assms by (simp add: scan_file_def)
  then show ?thesis
    using scan_lines_built [of ls "start f" c] by (simp add: start_def)
qed

lemma conversations_of_built:
  "list_all (\<lambda>c. list_all built_message (messages c)) (conversations_of f)"
  using scan_file_built [of f] by (simp add: conversations_of_def split: sum.splits)

lemma extract_droid_sessions_built:
  assumes "extract_droid_sessions sessions_dir = Inr out"
  shows "list_all (\<lambda>c. list_all built_message (messages c)) out"
proof (cases sessions_dir)
  case None
  then show ?thesis
    using assms by (auto simp add: extract_droid_sessions_def)
next
  case (Some fs)
  then have "out = concat (map conversations_of fs)"
    using assms by (simp add: extract_droid_sessions_Inr)
  moreover have "list_all (\<lambda>c. list_all built_message (messages c))
      (concat (map conversations_of fs))"
    using conversations_of_built by (induction fs) simp_all
  ultimately show ?thesis
    by simp
qed

lemma count_role_built:
  assumes "list_all built_message ms"
  shows "count_role r ms = Inr (length (filter (\<lambda>m. map_of m ''role'' = Some r) ms))"
  using assms by (induction ms) (auto simp add: built_message_def)

lemma statistics_built:
  assumes "list_all (\<lambda>c. list_all built_message (messages c)) convs"
  shows "statistics convs = Inr (recomputed convs)"
proof -
  have all: "list_all built_message (concat (map messages convs))"
    using assms by (induction convs) simp_all
  have tools: "list_ex (\<lambda>m. dict_has m ''tool_uses'' \<or> dict_has m ''tool_results'') (messages c) =
      list_ex (\<lambda>m. nonempty_field m ''tool_uses'' \<or> nonempty_field m ''tool_results'') (messages c)"
    if "c \<in> set convs" for c
  proof -
    have "\<forall>m \<in> set (messages c). built_message m"
      using assms that by (simp add: list_all_iff)
    then show ?thesis
      by (simp add: list_ex_iff built_message_def)
  qed
  have "filter (\<lambda>c. list_ex (\<lambda>m. dict_has m ''tool_uses'' \<or> dict_has m ''tool_results'')
                      (messages c)) convs =
        filter (\<lambda>c. list_ex (\<lambda>m. nonempty_field m ''tool_uses'' \<or>
                                  nonempty_field m ''tool_results'') (messages c)) convs"
    using tools by (simp cong: filter_cong)
  then show ?thesis
    by (simp add: statistics_def recomputed_def count_role_built [OF all])
qed

text \<open>
  C9. Whenever the extraction returns, the five counters that \<^verbatim>\<open>main\<close> computes on its
  output are the counters recomputed from that output: the sum of the lengths of
  \<^verbatim>\<open>messages\<close>, the messages with role \<^verbatim>\<open>user\<close>, those with role \<^verbatim>\<open>assistant\<close>, the
  conversations with a message that has a non-empty \<^verbatim>\<open>tool_uses\<close> or \<^verbatim>\<open>tool_results\<close>, and
  the conversations with a message that has a \<^verbatim>\<open>thinking\<close> key. No subscript \<^verbatim>\<open>m['role']\<close>
  raises.
\<close>

theorem summary_counters_recomputed:
  assumes "extract_droid_sessions sessions_dir = Inr conversations"
  shows "statistics conversations = Inr (recomputed conversations)"
  using statistics_built [OF extract_droid_sessions_built [OF assms]] .

theorem summary_counters_recomputed_witness:
  "extract_droid_sessions (Some
     [session ''s1'' (Inr
        [Decoded (JObj (message_record ''user'' (JArr [text_block ''a'']))),
         Decoded (JObj (message_record ''assistant''
           (JArr [thinking_block ''t'',
                  JObj [(''type'', JStr ''tool_use''), (''id'', JStr ''u1'')]])))]),
      session ''s2'' (Inr
        [Decoded (JObj (message_record ''user'' (JArr [text_block ''b''])))])]) =
   Inr [conv ''s1''
          [built ''user'' ''a'',
           built ''assistant'' '''' @
             [(''thinking'', JStr ''t''),
              (''tool_uses'', JArr [JObj [(''id'', JStr ''u1''), (''name'', JNull),
                                          (''input'', JNull)]])]]
          JNull JNull,
        conv ''s2'' [built ''user'' ''b''] JNull JNull] \<and>
   statistics
     [conv ''s1''
        [built ''user'' ''a'',
         built ''assistant'' '''' @
           [(''thinking'', JStr ''t''),
            (''tool_uses'', JArr [JObj [(''id'', JStr ''u1''), (''name'', JNull),
                                        (''input'', JNull)]])]]
        JNull JNull,
      conv ''s2'' [built ''user'' ''b''] JNull JNull] =
   Inr \<lparr>total_messages = 3, user_messages = 2, assistant_messages = 1,
        with_tools = 1, with_thinking = 1\<rparr>"
proof -
  let ?dir = "Some
     [session ''s1'' (Inr
        [Decoded (JObj (message_record ''user'' (JArr [text_block ''a'']))),
         Decoded (JObj (message_record ''assistant''
           (JArr [thinking_block ''t'',
                  JObj [(''type'', JStr ''tool_use''), (''id'', JStr ''u1'')]])))]),
      session ''s2'' (Inr
        [Decoded (JObj (message_record ''user'' (JArr [text_block ''b''])))])]"
  let ?out = "[conv ''s1''
        [built ''user'' ''a'',
         built ''assistant'' '''' @
           [(''thinking'', JStr ''t''),
            (''tool_uses'', JArr [JObj [(''id'', JStr ''u1''), (''name'', JNull),
                                        (''input'', JNull)]])]]
        JNull JNull,
      conv ''s2'' [built ''user'' ''b''] JNull JNull]"
  have out: "extract_droid_sessions ?dir = Inr ?out"
    by (simp add: extract_droid_sessions_def scan_file_def start_def process_message_def
        finish_message_def str_join_def dict_get_def dict_get_default_def Let_def)
  have "statistics ?out = Inr (recomputed ?out)"
    using summary_counters_recomputed [OF out] .
  then have "statistics ?out =
      Inr \<lparr>total_messages = 3, user_messages = 2, assistant_messages = 1,
           with_tools = 1, with_thinking = 1\<rparr>"
    by (simp add: recomputed_def nonempty_field_def dict_has_def)
  then show ?thesis
    using out by simp
qed

end
